theory Spec2Isabelle
  imports Complex_Main "HOL-Library.AList" "HOL-Library.Log_Nat"
begin

section \<open>The trading account of \<open>accounts.py\<close>\<close>

text \<open>
  The embedding follows \<open>src/engineering_team/output/accounts.py\<close>.

  \<^item> Python's \<open>float\<close> is the IEEE 754 double. A double is modelled by its exact
    rational value, or one of the two infinities, or NaN; each arithmetic operation
    computes the exact result and rounds it to the nearest double, ties to even, with
    overflow to an infinity and gradual underflow. The two zeros are identified: they
    compare equal and the code never divides.
  \<^item> Amounts are floats and quantities are Python's unbounded ints, as the methods
    annotate them; the quantities are \<open>int\<close>. In \<open>price * quantity\<close> the quantity is
    converted to a double first, which raises \<open>OverflowError\<close> when it is too large.
  \<^item> A raised exception is an \<open>Inl\<close> result. Every operation returns its result
    together with the account as it is at that moment, so a raise after a partial update
    would be visible in the returned account.
  \<^item> \<open>datetime.now()\<close> is a parameter \<open>now\<close> of each operation that records.
  \<^item> \<open>get_share_price\<close> is looked up in the module's globals at each call (the tests
    patch it), so the account's methods take the price function as a parameter \<open>gsp\<close>;
    the program runs them with \<open>get_share_price\<close>.
  \<^item> The \<open>holdings\<close> dictionary is an association list in insertion order:
    lookup is \<open>map_of\<close>, item assignment is \<open>AList.update\<close> (in place when the key is
    present, at the end otherwise), \<open>del\<close> is \<open>AList.delete\<close>.
\<close>

subsection \<open>Exceptions\<close>

text \<open>
  \<open>ValueError\<close>, \<open>KeyError\<close> and \<open>OverflowError\<close> are Python's own; the other three
  are the classes the module declares. The messages are not modelled;
  \<open>InsufficientSharesError\<close> keeps the symbol, the requested and the owned quantity that
  its message reports, and \<open>InvalidSymbolError\<close> keeps the symbol.
\<close>

datatype error =
    ValueError
  | KeyError
  | OverflowError
  | InsufficientFundsError
  | InsufficientSharesError string int int
  | InvalidSymbolError string

subsection \<open>Double-precision floats\<close>

datatype pyfloat = Finite rat | PInf | NInf | NaN

text \<open>
  For \<open>x > 0\<close>, \<open>floor_log2 x\<close> is the \<open>k\<close> with \<open>2 ^ k \<le> x < 2 ^ (k + 1)\<close>, and
  \<open>ulp_exp x\<close> is the exponent of the spacing of the doubles around \<open>x\<close>: 53 significant
  bits, and never finer than \<open>2 ^ - 1074\<close>, the spacing of the subnormal numbers.
\<close>

definition floor_log2 :: "rat \<Rightarrow> int" where
  "floor_log2 x = (if 1 \<le> x then bitlen \<lfloor>x\<rfloor> - 1 else - bitlen (\<lceil>1 / x\<rceil> - 1))"

definition ulp_exp :: "rat \<Rightarrow> int" where
  "ulp_exp x = max (floor_log2 \<bar>x\<bar> - 52) (- 1074)"

definition round_half_even :: "rat \<Rightarrow> int" where
  "round_half_even q =
     (let f = \<lfloor>q\<rfloor>; r = q - of_int f
      in if r < 1 / 2 then f else if 1 / 2 < r then f + 1 else if even f then f else f + 1)"

text \<open>
  The largest double is \<open>2 ^ 1024 - 2 ^ 971\<close>. A value rounds to an infinity from the
  midpoint between it and \<open>2 ^ 1024\<close> on, the midpoint included (a tie, which goes to the
  even significand of \<open>2 ^ 1024\<close>).
\<close>

definition overflow_threshold :: rat where
  "overflow_threshold = 2 ^ 1024 - 2 ^ 970"

definition round_double :: "rat \<Rightarrow> pyfloat" where
  "round_double x =
     (if x = 0 then Finite 0
      else if overflow_threshold \<le> x then PInf
      else if x \<le> - overflow_threshold then NInf
      else Finite (sgn x * of_int (round_half_even (\<bar>x\<bar> / 2 powi ulp_exp x)) * 2 powi ulp_exp x))"

text \<open>The rationals that are doubles: zero, and the multiples of their own spacing.\<close>

definition is_double :: "rat \<Rightarrow> bool" where
  "is_double x =
     (x = 0 \<or> (\<bar>x\<bar> < overflow_threshold
        \<and> of_int \<lfloor>\<bar>x\<bar> / 2 powi ulp_exp x\<rfloor> = \<bar>x\<bar> / 2 powi ulp_exp x))"

text \<open>
  The values of \<open>pyfloat\<close> that are floats: a finite one has to be a double.
\<close>

fun is_float :: "pyfloat \<Rightarrow> bool" where
  "is_float (Finite x) = is_double x"
| "is_float PInf = True"
| "is_float NInf = True"
| "is_float NaN = True"

fun float_neg :: "pyfloat \<Rightarrow> pyfloat" where
  "float_neg (Finite x) = Finite (- x)"
| "float_neg PInf = NInf"
| "float_neg NInf = PInf"
| "float_neg NaN = NaN"

fun float_add :: "pyfloat \<Rightarrow> pyfloat \<Rightarrow> pyfloat" where
  "float_add NaN b = NaN"
| "float_add a NaN = NaN"
| "float_add PInf NInf = NaN"
| "float_add NInf PInf = NaN"
| "float_add PInf b = PInf"
| "float_add a PInf = PInf"
| "float_add NInf b = NInf"
| "float_add a NInf = NInf"
| "float_add (Finite x) (Finite y) = round_double (x + y)"

definition float_sub :: "pyfloat \<Rightarrow> pyfloat \<Rightarrow> pyfloat" where
  "float_sub a b = float_add a (float_neg b)"

fun float_sign :: "pyfloat \<Rightarrow> int" where
  "float_sign (Finite x) = (if x < 0 then - 1 else if x = 0 then 0 else 1)"
| "float_sign PInf = 1"
| "float_sign NInf = - 1"
| "float_sign NaN = 0"

fun float_mul :: "pyfloat \<Rightarrow> pyfloat \<Rightarrow> pyfloat" where
  "float_mul NaN b = NaN"
| "float_mul a NaN = NaN"
| "float_mul (Finite x) (Finite y) = round_double (x * y)"
| "float_mul a b =
     (if float_sign a * float_sign b = 0 then NaN
      else if 0 < float_sign a * float_sign b then PInf else NInf)"

text \<open>Comparisons: every comparison with NaN is false.\<close>

fun float_le :: "pyfloat \<Rightarrow> pyfloat \<Rightarrow> bool" where
  "float_le NaN b = False"
| "float_le a NaN = False"
| "float_le NInf b = True"
| "float_le a PInf = True"
| "float_le PInf b = False"
| "float_le a NInf = False"
| "float_le (Finite x) (Finite y) = (x \<le> y)"

fun float_lt :: "pyfloat \<Rightarrow> pyfloat \<Rightarrow> bool" where
  "float_lt NaN b = False"
| "float_lt a NaN = False"
| "float_lt a NInf = False"
| "float_lt PInf b = False"
| "float_lt NInf b = True"
| "float_lt a PInf = True"
| "float_lt (Finite x) (Finite y) = (x < y)"

definition float_gt :: "pyfloat \<Rightarrow> pyfloat \<Rightarrow> bool" where
  "float_gt a b = float_lt b a"

text \<open>
  The conversion of an \<open>int\<close> operand of a float operation: correctly rounded, and
  \<open>OverflowError\<close> (\<open>int too large to convert to float\<close>) where the rounded value would not
  be finite.
\<close>

definition float_of_int :: "int \<Rightarrow> error + pyfloat" where
  "float_of_int n =
     (if overflow_threshold \<le> \<bar>of_int n\<bar> then Inl OverflowError
      else Inr (round_double (of_int n)))"

text \<open>\<open>price * quantity\<close>, a float times an int.\<close>

definition float_mul_int :: "pyfloat \<Rightarrow> int \<Rightarrow> error + pyfloat" where
  "float_mul_int price qty =
     (case float_of_int qty of Inl e \<Rightarrow> Inl e | Inr f \<Rightarrow> Inr (float_mul price f))"

subsection \<open>The price table\<close>

definition prices :: "(string \<times> pyfloat) list" where
  "prices = [(''AAPL'', Finite 150), (''TSLA'', Finite 250), (''GOOGL'', Finite 130)]"

definition get_share_price :: "string \<Rightarrow> error + pyfloat" where
  "get_share_price symb =
     (case map_of prices symb of
        None \<Rightarrow> Inl (InvalidSymbolError symb)
      | Some price \<Rightarrow> Inr price)"

subsection \<open>Data structures\<close>

type_synonym datetime = nat

datatype TransactionType = DEPOSIT | WITHDRAW | BUY | SELL

record Transaction =
  timestamp :: datetime
  type :: TransactionType
  amount :: pyfloat
  symbol :: "string option"
  quantity :: "int option"
  share_price :: "pyfloat option"

record Account =
  account_id :: string
  user_name :: string
  cash_balance :: pyfloat
  total_deposits :: pyfloat
  holdings :: "(string \<times> int) list"
  transactions :: "Transaction list"

definition Account_init :: "string \<Rightarrow> string \<Rightarrow> Account" where
  "Account_init aid uname =
     \<lparr>account_id = aid, user_name = uname, cash_balance = Finite 0, total_deposits = Finite 0,
      holdings = [], transactions = []\<rparr>"

subsection \<open>Mutating operations\<close>

definition record_transaction ::
  "datetime \<Rightarrow> TransactionType \<Rightarrow> pyfloat \<Rightarrow> string option \<Rightarrow> int option \<Rightarrow> pyfloat option
     \<Rightarrow> Account \<Rightarrow> (error + unit) \<times> Account" where
  "record_transaction now transaction_type amt symb qty price a =
     (let transaction =
            \<lparr>timestamp = now, type = transaction_type, amount = amt, symbol = symb,
             quantity = qty, share_price = price\<rparr>
      in (Inr (), a\<lparr>transactions := transactions a @ [transaction]\<rparr>))"

definition deposit :: "datetime \<Rightarrow> pyfloat \<Rightarrow> Account \<Rightarrow> (error + unit) \<times> Account" where
  "deposit now amt a =
     (if float_le amt (Finite 0) then (Inl ValueError, a)
      else
        let a1 = a\<lparr>cash_balance := float_add (cash_balance a) amt\<rparr>;
            a2 = a1\<lparr>total_deposits := float_add (total_deposits a1) amt\<rparr>
        in record_transaction now DEPOSIT amt None None None a2)"

definition withdraw :: "datetime \<Rightarrow> pyfloat \<Rightarrow> Account \<Rightarrow> (error + unit) \<times> Account" where
  "withdraw now amt a =
     (if float_le amt (Finite 0) then (Inl ValueError, a)
      else if float_gt amt (cash_balance a) then (Inl InsufficientFundsError, a)
      else
        let a1 = a\<lparr>cash_balance := float_sub (cash_balance a) amt\<rparr>
        in record_transaction now WITHDRAW (float_neg amt) None None None a1)"

text \<open>\<open>holdings.get(symbol, 0)\<close>.\<close>

definition holdings_get :: "(string \<times> int) list \<Rightarrow> string \<Rightarrow> int" where
  "holdings_get h symb = (case map_of h symb of None \<Rightarrow> 0 | Some n \<Rightarrow> n)"

definition buy ::
  "(string \<Rightarrow> error + pyfloat) \<Rightarrow> datetime \<Rightarrow> string \<Rightarrow> int \<Rightarrow> Account
     \<Rightarrow> (error + unit) \<times> Account" where
  "buy gsp now symb qty a =
     (if qty \<le> 0 then (Inl ValueError, a)
      else
        case gsp symb of
          Inl e \<Rightarrow> (Inl e, a)
        | Inr price \<Rightarrow>
            (case float_mul_int price qty of
               Inl e \<Rightarrow> (Inl e, a)
             | Inr total_cost \<Rightarrow>
                 if float_gt total_cost (cash_balance a) then (Inl InsufficientFundsError, a)
                 else
                   let a1 = a\<lparr>cash_balance := float_sub (cash_balance a) total_cost\<rparr>;
                       a2 = a1\<lparr>holdings :=
                               AList.update symb (holdings_get (holdings a1) symb + qty)
                                 (holdings a1)\<rparr>
                   in record_transaction now BUY (float_neg total_cost)
                        (Some symb) (Some qty) (Some price) a2))"

text \<open>
  In \<open>sell\<close> the statements \<open>self.holdings[symbol] -= quantity\<close> and
  \<open>if self.holdings[symbol] == 0\<close> read the dictionary by subscript, which raises
  \<open>KeyError\<close> on a missing key; both come after the cash balance has been updated.
\<close>

definition sell ::
  "(string \<Rightarrow> error + pyfloat) \<Rightarrow> datetime \<Rightarrow> string \<Rightarrow> int \<Rightarrow> Account
     \<Rightarrow> (error + unit) \<times> Account" where
  "sell gsp now symb qty a =
     (if qty \<le> 0 then (Inl ValueError, a)
      else
        let current_quantity = holdings_get (holdings a) symb in
        if current_quantity < qty then (Inl (InsufficientSharesError symb qty current_quantity), a)
        else
          case gsp symb of
            Inl e \<Rightarrow> (Inl e, a)
          | Inr price \<Rightarrow>
              (case float_mul_int price qty of
                 Inl e \<Rightarrow> (Inl e, a)
               | Inr total_sale_value \<Rightarrow>
                   (let a1 = a\<lparr>cash_balance := float_add (cash_balance a) total_sale_value\<rparr>
                    in
                    case map_of (holdings a1) symb of
                      None \<Rightarrow> (Inl KeyError, a1)
                    | Some n \<Rightarrow>
                        (let a2 = a1\<lparr>holdings := AList.update symb (n - qty) (holdings a1)\<rparr> in
                         case map_of (holdings a2) symb of
                           None \<Rightarrow> (Inl KeyError, a2)
                         | Some m \<Rightarrow>
                             (let a3 = (if m = 0
                                        then a2\<lparr>holdings := AList.delete symb (holdings a2)\<rparr>
                                        else a2)
                              in record_transaction now SELL total_sale_value
                                   (Some symb) (Some qty) (Some price) a3)))))"

subsection \<open>Reporting queries\<close>

text \<open>
  The loop of \<open>get_portfolio_value\<close> over \<open>self.holdings.items()\<close>. Its \<open>except\<close> clause
  catches \<open>InvalidSymbolError\<close> only: any other exception of the price function, and the
  \<open>OverflowError\<close> of \<open>price * quantity\<close>, leave the loop.
\<close>

fun holdings_loop ::
  "(string \<Rightarrow> error + pyfloat) \<Rightarrow> (string \<times> int) list \<Rightarrow> pyfloat \<Rightarrow> error + pyfloat" where
  "holdings_loop gsp [] holdings_value = Inr holdings_value"
| "holdings_loop gsp ((symb, qty) # items) holdings_value =
     (case gsp symb of
        Inr price \<Rightarrow>
          (case float_mul_int price qty of
             Inl e \<Rightarrow> Inl e
           | Inr v \<Rightarrow> holdings_loop gsp items (float_add holdings_value v))
      | Inl (InvalidSymbolError s) \<Rightarrow> holdings_loop gsp items holdings_value
      | Inl e \<Rightarrow> Inl e)"

definition get_portfolio_value ::
  "(string \<Rightarrow> error + pyfloat) \<Rightarrow> Account \<Rightarrow> (error + pyfloat) \<times> Account" where
  "get_portfolio_value gsp a =
     (case holdings_loop gsp (holdings a) (Finite 0) of
        Inl e \<Rightarrow> (Inl e, a)
      | Inr holdings_value \<Rightarrow> (Inr (float_add (cash_balance a) holdings_value), a))"

definition get_profit_loss ::
  "(string \<Rightarrow> error + pyfloat) \<Rightarrow> Account \<Rightarrow> (error + pyfloat) \<times> Account" where
  "get_profit_loss gsp a =
     (case get_portfolio_value gsp a of
        (Inl e, a') \<Rightarrow> (Inl e, a')
      | (Inr current_value, a') \<Rightarrow> (Inr (float_sub current_value (total_deposits a')), a'))"

subsection \<open>Sequences of calls\<close>

text \<open>
  A caller such as \<open>app.py\<close> issues one call after the other and catches the exceptions;
  after a raise the account is whatever the failed call left behind.
\<close>

datatype operation = Deposit pyfloat | Withdraw pyfloat | Buy string int | Sell string int

fun perform ::
  "(string \<Rightarrow> error + pyfloat) \<Rightarrow> datetime \<Rightarrow> operation \<Rightarrow> Account
     \<Rightarrow> (error + unit) \<times> Account" where
  "perform gsp now (Deposit amt) a = deposit now amt a"
| "perform gsp now (Withdraw amt) a = withdraw now amt a"
| "perform gsp now (Buy symb qty) a = buy gsp now symb qty a"
| "perform gsp now (Sell symb qty) a = sell gsp now symb qty a"

fun run ::
  "(string \<Rightarrow> error + pyfloat) \<Rightarrow> Account \<Rightarrow> (datetime \<times> operation) list \<Rightarrow> Account" where
  "run gsp a [] = a"
| "run gsp a ((now, op) # ops) = run gsp (snd (perform gsp now op a)) ops"

text \<open>The number of calls of a sequence that return without raising.\<close>

fun completed ::
  "(string \<Rightarrow> error + pyfloat) \<Rightarrow> Account \<Rightarrow> (datetime \<times> operation) list \<Rightarrow> nat" where
  "completed gsp a [] = 0"
| "completed gsp a ((now, op) # ops) =
     (case perform gsp now op a of
        (Inl e, a') \<Rightarrow> completed gsp a' ops
      | (Inr u, a') \<Rightarrow> Suc (completed gsp a' ops))"

subsection \<open>The validation that the specification describes\<close>

text \<open>
  This function is written from the specification (sections 4.2 and 7), for comparison
  with the code: the check that rejects a call, in the order the specification lists
  them, and the error it raises. The cost of a purchase is the product that the code
  computes, a double; where the quantity has no double, there is no cost to compare and
  no validation error. The specification's \<open>InvalidAmountError\<close> and
  \<open>InvalidQuantityError\<close> are \<open>ValueError\<close> in the code, and its
  \<open>UnknownSymbolError\<close> is the error of the price function
  (\<open>InvalidSymbolError\<close> for \<open>get_share_price\<close>).
\<close>

fun spec_validation_error ::
  "(string \<Rightarrow> error + pyfloat) \<Rightarrow> operation \<Rightarrow> Account \<Rightarrow> error option" where
  "spec_validation_error gsp (Deposit amt) a =
     (if float_le amt (Finite 0) then Some ValueError else None)"
| "spec_validation_error gsp (Withdraw amt) a =
     (if float_le amt (Finite 0) then Some ValueError
      else if float_lt (cash_balance a) amt then Some InsufficientFundsError
      else None)"
| "spec_validation_error gsp (Buy symb qty) a =
     (if qty \<le> 0 then Some ValueError
      else case gsp symb of
        Inl e \<Rightarrow> Some e
      | Inr p \<Rightarrow>
          (case float_mul_int p qty of
             Inl e \<Rightarrow> None
           | Inr cost \<Rightarrow>
               if float_lt (cash_balance a) cost then Some InsufficientFundsError else None))"
| "spec_validation_error gsp (Sell symb qty) a =
     (if qty \<le> 0 then Some ValueError
      else if holdings_get (holdings a) symb < qty
      then Some (InsufficientSharesError symb qty (holdings_get (holdings a) symb))
      else case gsp symb of Inl e \<Rightarrow> Some e | Inr p \<Rightarrow> None)"

subsection \<open>A patched price function\<close>

text \<open>
  \<open>test_get_profit_loss\<close> in \<open>test_accounts.py\<close> replaces \<open>get_share_price\<close> by a
  subscript on a dictionary literal; outside the literal's keys the subscript raises
  \<open>KeyError\<close>.
\<close>

definition mock_get_price :: "(string \<times> pyfloat) list \<Rightarrow> string \<Rightarrow> error + pyfloat" where
  "mock_get_price table symb =
     (case map_of table symb of None \<Rightarrow> Inl KeyError | Some price \<Rightarrow> Inr price)"

subsection \<open>Objects and references\<close>

text \<open>
  In the model above a dictionary or a list is a value, and a value cannot be shared. For
  \<open>get_holdings\<close> and \<open>get_transactions\<close>, which hand collections to the caller, the
  objects are modelled with their identity. The heap is the list of the objects
  allocated so far, an address is a position in it, and nothing is ever freed. An
  \<open>Account\<close> holds the addresses of its holdings dictionary and of its transactions list;
  the list holds the addresses of its \<open>Transaction\<close> instances; keys and values of the
  dictionary and the fields of a \<open>Transaction\<close> are immutable Python values. A result of
  \<open>None\<close> stands for a reference that does not lead to an object of the expected class.

  \<open>dict.copy()\<close> and \<open>list.copy()\<close> are shallow: they allocate a new container with the
  items of the old one. \<open>Transaction\<close> is a plain \<open>@dataclass\<close> (not frozen), so a caller
  can assign to its fields: \<open>setattr_amount\<close> is \<open>t.amount = v\<close>. Any other change a
  caller makes to one object is the replacement of the heap cell of that object.

  \<open>holdings_of\<close> and \<open>transactions_of\<close> read the account's two collections off the
  heap, and \<open>heap_wf\<close> says that the account's references lead to a dictionary and to a
  list of \<open>Transaction\<close> instances.
\<close>

type_synonym addr = nat

datatype pyobject = Dict "(string \<times> int) list" | PyList "addr list" | Instance Transaction

type_synonym heap = "pyobject list"

definition heap_lookup :: "heap \<Rightarrow> addr \<Rightarrow> pyobject option" where
  "heap_lookup h r = (if r < length h then Some (h ! r) else None)"

definition alloc :: "pyobject \<Rightarrow> heap \<Rightarrow> addr \<times> heap" where
  "alloc obj h = (length h, h @ [obj])"

record Account_object =
  holdings_ref :: addr
  transactions_ref :: addr

definition Account_object_init :: "heap \<Rightarrow> Account_object \<times> heap" where
  "Account_object_init h =
     (let (d, h1) = alloc (Dict []) h;
          (l, h2) = alloc (PyList []) h1
      in (\<lparr>holdings_ref = d, transactions_ref = l\<rparr>, h2))"

definition record_transaction_obj :: "Transaction \<Rightarrow> Account_object \<Rightarrow> heap \<Rightarrow> heap option" where
  "record_transaction_obj transaction self h =
     (let (t, h1) = alloc (Instance transaction) h
      in case heap_lookup h1 (transactions_ref self) of
           Some (PyList rs) \<Rightarrow> Some (h1[transactions_ref self := PyList (rs @ [t])])
         | _ \<Rightarrow> None)"

definition get_holdings :: "Account_object \<Rightarrow> heap \<Rightarrow> (addr \<times> heap) option" where
  "get_holdings self h =
     (case heap_lookup h (holdings_ref self) of
        Some (Dict items) \<Rightarrow> Some (alloc (Dict items) h)
      | _ \<Rightarrow> None)"

definition get_transactions :: "Account_object \<Rightarrow> heap \<Rightarrow> (addr \<times> heap) option" where
  "get_transactions self h =
     (case heap_lookup h (transactions_ref self) of
        Some (PyList rs) \<Rightarrow> Some (alloc (PyList rs) h)
      | _ \<Rightarrow> None)"

definition setattr_amount :: "addr \<Rightarrow> pyfloat \<Rightarrow> heap \<Rightarrow> heap option" where
  "setattr_amount r v h =
     (case heap_lookup h r of
        Some (Instance t) \<Rightarrow> Some (h[r := Instance (t\<lparr>amount := v\<rparr>)])
      | _ \<Rightarrow> None)"

definition holdings_of :: "heap \<Rightarrow> Account_object \<Rightarrow> (string \<times> int) list option" where
  "holdings_of h self =
     (case heap_lookup h (holdings_ref self) of Some (Dict items) \<Rightarrow> Some items | _ \<Rightarrow> None)"

definition instance_at :: "heap \<Rightarrow> addr \<Rightarrow> Transaction option" where
  "instance_at h r = (case heap_lookup h r of Some (Instance t) \<Rightarrow> Some t | _ \<Rightarrow> None)"

definition transactions_of :: "heap \<Rightarrow> Account_object \<Rightarrow> Transaction option list option" where
  "transactions_of h self =
     (case heap_lookup h (transactions_ref self) of
        Some (PyList rs) \<Rightarrow> Some (map (instance_at h) rs)
      | _ \<Rightarrow> None)"

definition heap_wf :: "heap \<Rightarrow> Account_object \<Rightarrow> bool" where
  "heap_wf h self =
     (holdings_of h self \<noteq> None \<and>
      (case heap_lookup h (transactions_ref self) of
         Some (PyList rs) \<Rightarrow> list_all (\<lambda>r. instance_at h r \<noteq> None) rs
       | _ \<Rightarrow> False))"

section \<open>Properties\<close>

subsection \<open>Rounding to a double\<close>

lemma floor_log2_bounds:
  assumes "0 < x"
  shows "2 powi floor_log2 x \<le> x" and "x < 2 powi (floor_log2 x + 1)"
proof -
  have "2 powi floor_log2 x \<le> x \<and> x < 2 powi (floor_log2 x + 1)"
  proof (cases "1 \<le> x")
    case True
    let ?n = "\<lfloor>x\<rfloor>"
    from True have n: "0 < ?n" by simp
    from bitlen_bounds [OF n] have lo: "2 ^ nat (bitlen ?n - 1) \<le> ?n" and hi: "?n < 2 ^ nat (bitlen ?n)"
      by simp_all
    from n have b: "1 \<le> bitlen ?n" by (simp add: bitlen_alt_def)
    have "(2::rat) powi (bitlen ?n - 1) = of_int (2 ^ nat (bitlen ?n - 1))"
      using b by (simp add: power_int_def)
    also have "\<dots> \<le> of_int ?n" using lo by (simp only: of_int_le_iff)
    also have "\<dots> \<le> x" by simp
    finally have l: "2 powi (bitlen ?n - 1) \<le> x" .
    have "x < of_int (?n + 1)" by linarith
    also have "\<dots> \<le> of_int (2 ^ nat (bitlen ?n))" using hi by (simp only: of_int_le_iff; simp?)
    also have "\<dots> = 2 powi (bitlen ?n)" using b by (simp add: power_int_def)
    finally have "x < 2 powi (bitlen ?n)" .
    with l True show ?thesis by (simp add: floor_log2_def)
  next
    case False
    let ?b = "1 / x"
    let ?m = "\<lceil>?b\<rceil> - 1"
    from False assms have b1: "1 < ?b" by simp
    then have m: "0 < ?m" by linarith
    from bitlen_bounds [OF m] have lo: "2 ^ nat (bitlen ?m - 1) \<le> ?m" and hi: "?m < 2 ^ nat (bitlen ?m)"
      by simp_all
    from m have b: "1 \<le> bitlen ?m" by (simp add: bitlen_alt_def)
    have "?b \<le> of_int (?m + 1)" by simp
    also have "\<dots> \<le> of_int (2 ^ nat (bitlen ?m))" using hi by (simp only: of_int_le_iff; simp?)
    also have "\<dots> = 2 powi (bitlen ?m)" using b by (simp add: power_int_def)
    finally have "1 / x \<le> 2 powi (bitlen ?m)" .
    with assms have "1 / 2 powi (bitlen ?m) \<le> x"
      by (simp add: field_simps)
    then have l: "2 powi (- bitlen ?m) \<le> x" by (simp add: power_int_minus_divide)
    have "(2::rat) powi (bitlen ?m - 1) = of_int (2 ^ nat (bitlen ?m - 1))"
      using b by (simp add: power_int_def)
    also have "\<dots> \<le> of_int ?m" using lo by (simp only: of_int_le_iff)
    also have "\<dots> < ?b" by linarith
    finally have "2 powi (bitlen ?m - 1) < 1 / x" .
    with assms have "x < 1 / 2 powi (bitlen ?m - 1)" by (simp add: field_simps)
    then have "x < 2 powi (- bitlen ?m + 1)"
      using power_int_minus_divide [of "2::rat" "bitlen ?m - 1"] by simp
    with l False show ?thesis by (simp add: floor_log2_def)
  qed
  then show "2 powi floor_log2 x \<le> x" and "x < 2 powi (floor_log2 x + 1)" by simp_all
qed

lemma floor_log2_unique:
  assumes "2 powi k \<le> x" "x < 2 powi (k + 1)"
  shows "floor_log2 x = k"
proof -
  have "(0::rat) < 2 powi k" by simp
  with assms have pos: "0 < x" by linarith
  note b = floor_log2_bounds [OF pos]
  have "\<not> floor_log2 x < k"
  proof
    assume "floor_log2 x < k"
    then have "(2::rat) powi (floor_log2 x + 1) \<le> 2 powi k" by (intro power_int_increasing) simp_all
    with b(2) assms(1) show False by linarith
  qed
  moreover have "\<not> k < floor_log2 x"
  proof
    assume "k < floor_log2 x"
    then have "(2::rat) powi (k + 1) \<le> 2 powi floor_log2 x" by (intro power_int_increasing) simp_all
    with b(1) assms(2) show False by linarith
  qed
  ultimately show ?thesis by linarith
qed

lemma floor_log2_mono:
  assumes "0 < x" "x \<le> y"
  shows "floor_log2 x \<le> floor_log2 y"
proof (rule ccontr)
  assume "\<not> floor_log2 x \<le> floor_log2 y"
  then have "floor_log2 y + 1 \<le> floor_log2 x" by simp
  then have "(2::rat) powi (floor_log2 y + 1) \<le> 2 powi floor_log2 x"
    by (intro power_int_increasing) simp_all
  moreover from assms have "0 < y" by simp
  ultimately show False
    using floor_log2_bounds(1) [OF assms(1)] floor_log2_bounds(2) [OF \<open>0 < y\<close>] assms(2) by linarith
qed

lemma round_half_even_of_int [simp]: "round_half_even (of_int n) = n"
  by (simp add: round_half_even_def)

lemma round_half_even_ge: "of_int n \<le> q \<Longrightarrow> n \<le> round_half_even q"
proof -
  assume "of_int n \<le> q"
  then have "n \<le> \<lfloor>q\<rfloor>" by (simp add: le_floor_iff)
  then show ?thesis by (simp add: round_half_even_def Let_def)
qed

lemma round_half_even_le_half: "q < of_int n + 1 / 2 \<Longrightarrow> round_half_even q \<le> n"
proof -
  assume a: "q < of_int n + 1 / 2"
  then have "q < of_int (n + 1)" by simp
  then have f: "\<lfloor>q\<rfloor> \<le> n" by (simp only: floor_less_iff [symmetric]; simp?)
  show ?thesis
  proof (cases "\<lfloor>q\<rfloor> = n")
    case True
    with a have "q - of_int \<lfloor>q\<rfloor> < 1 / 2" by simp
    with True show ?thesis by (simp add: round_half_even_def Let_def)
  next
    case False
    with f have "\<lfloor>q\<rfloor> + 1 \<le> n" by simp
    then show ?thesis by (simp add: round_half_even_def Let_def)
  qed
qed

lemma round_half_even_le: "q \<le> of_int n \<Longrightarrow> round_half_even q \<le> n"
  by (rule round_half_even_le_half) simp

lemma round_half_even_nonneg: "0 \<le> q \<Longrightarrow> 0 \<le> round_half_even q"
  using round_half_even_ge [of 0 q] by simp

lemma pow2_add: "(2::rat) powi (a + b) = 2 powi a * 2 powi b"
  by (simp add: power_int_add)

lemma pow2_diff: "(2::rat) powi (a - b) = 2 powi a / 2 powi b"
  by (simp add: power_int_diff)

lemma threshold_pos: "0 < overflow_threshold"
  and threshold_gt: "2 powi 1023 < overflow_threshold"
  and threshold_lt: "overflow_threshold < 2 powi 1024"
  and threshold_div: "overflow_threshold / 2 powi 971 = 2 ^ 53 - 1 / 2"
  and threshold_max: "(2 ^ 53 - 1) * 2 powi 971 < overflow_threshold"
  by (simp_all add: overflow_threshold_def)

lemma round_double_nonneg:
  assumes "0 \<le> x"
  shows "round_double x = PInf \<or> (\<exists>y. round_double x = Finite y \<and> 0 \<le> y)"
proof (cases "x = 0")
  case True
  then show ?thesis by (simp add: round_double_def)
next
  case False
  with assms have "0 < x" by simp
  then have "0 \<le> round_half_even (\<bar>x\<bar> / 2 powi ulp_exp x)"
    by (intro round_half_even_nonneg) simp
  with \<open>0 < x\<close> threshold_pos show ?thesis
    by (auto simp: round_double_def)
qed

lemma round_double_exact: "is_double x \<Longrightarrow> round_double x = Finite x"
proof -
  assume d: "is_double x"
  show ?thesis
  proof (cases "x = 0")
    case True
    then show ?thesis by (simp add: round_double_def)
  next
    case False
    let ?q = "\<bar>x\<bar> / 2 powi ulp_exp x"
    from d False have t: "\<bar>x\<bar> < overflow_threshold" and q: "of_int \<lfloor>?q\<rfloor> = ?q"
      by (simp_all add: is_double_def)
    have "round_half_even ?q = round_half_even (of_int \<lfloor>?q\<rfloor>)" by (simp only: q)
    then have "round_half_even ?q = \<lfloor>?q\<rfloor>" by (simp only: round_half_even_of_int)
    then have "of_int (round_half_even ?q) * 2 powi ulp_exp x
        = of_int \<lfloor>?q\<rfloor> * 2 powi ulp_exp x" by (simp only:)
    also have "\<dots> = ?q * 2 powi ulp_exp x" by (simp only: q)
    also have "\<dots> = \<bar>x\<bar>" by simp
    finally have "of_int (round_half_even ?q) * 2 powi ulp_exp x = \<bar>x\<bar>" .
    then have "sgn x * of_int (round_half_even ?q) * 2 powi ulp_exp x = sgn x * \<bar>x\<bar>"
      by (simp add: mult.assoc)
    also have "\<dots> = x" by (simp add: sgn_mult_abs)
    finally show ?thesis using False t by (auto simp: round_double_def)
  qed
qed

text \<open>The value that rounding gives to a positive rational below the overflow threshold.\<close>

lemma rounded_is_double:
  assumes a: "0 < a" "a < overflow_threshold"
  defines "v \<equiv> of_int (round_half_even (a / 2 powi ulp_exp a)) * 2 powi ulp_exp a"
  shows "0 \<le> v \<and> is_double v"
proof -
  let ?k = "floor_log2 a"
  let ?e = "ulp_exp a"
  let ?q = "a / 2 powi ?e"
  let ?n = "round_half_even ?q"
  from a have abs: "\<bar>a\<bar> = a" by simp
  note kb = floor_log2_bounds [OF a(1)]
  have n0: "0 \<le> ?n" using a by (intro round_half_even_nonneg) simp
  then have v0: "0 \<le> v" by (simp add: v_def)
  have e: "?e = max (?k - 52) (- 1074)" by (simp add: ulp_exp_def abs)
  have "is_double v"
  proof (cases "- 1074 \<le> ?k - 52")
    case True
    with e have ek: "?e = ?k - 52" by simp
    have k52: "(2::rat) powi ?k = 2 ^ 52 * 2 powi ?e"
    proof -
      have "?k = 52 + ?e" using ek by simp
      then have "(2::rat) powi ?k = 2 powi 52 * 2 powi ?e" by (simp only: pow2_add)
      then show ?thesis by simp
    qed
    have k53: "(2::rat) powi (?k + 1) = 2 ^ 53 * 2 powi ?e"
    proof -
      have "?k + 1 = 53 + ?e" using ek by simp
      then have "(2::rat) powi (?k + 1) = 2 powi 53 * 2 powi ?e" by (simp only: pow2_add)
      then show ?thesis by simp
    qed
    from kb(1) k52 have "2 ^ 52 \<le> ?q" by (simp add: field_simps)
    then have "of_int (2 ^ 52) \<le> ?q" by simp
    then have nlo: "2 ^ 52 \<le> ?n" by (rule round_half_even_ge)
    from kb(2) k53 have "?q < 2 ^ 53" by (simp add: field_simps)
    then have "?q \<le> of_int (2 ^ 53)" by simp
    then have nhi: "?n \<le> 2 ^ 53" by (rule round_half_even_le)
    have klt: "?k < 1024"
    proof (rule ccontr)
      assume "\<not> ?k < 1024"
      then have "(2::rat) powi 1024 \<le> 2 powi ?k" by (intro power_int_increasing) simp_all
      with kb(1) a(2) threshold_lt show False by linarith
    qed
    have vt: "v < overflow_threshold"
    proof (cases "?k = 1023")
      case True
      then have e971: "?e = 971" by (simp add: ek)
      from a(2) have "a / 2 powi 971 < overflow_threshold / 2 powi 971"
        by (intro divide_strict_right_mono) simp_all
      then have "?q < 2 ^ 53 - 1 / 2" by (simp only: threshold_div e971)
      then have "?q < of_int (2 ^ 53 - 1) + 1 / 2" by simp
      then have "?n \<le> 2 ^ 53 - 1" by (rule round_half_even_le_half)
      then have "(of_int ?n :: rat) \<le> of_int (2 ^ 53 - 1)" by (simp only: of_int_le_iff)
      then have "of_int ?n * 2 powi 971 \<le> (2 ^ 53 - 1) * (2::rat) powi 971"
        by (intro mult_right_mono) simp_all
      with threshold_max show ?thesis by (simp add: v_def e971)
    next
      case False
      with klt have "?k + 1 \<le> 1023" by simp
      then have le: "(2::rat) powi (?k + 1) \<le> 2 powi 1023"
        by (intro power_int_increasing) simp_all
      from nhi have "(of_int ?n :: rat) \<le> 2 ^ 53" by simp
      then have "of_int ?n * 2 powi ?e \<le> 2 ^ 53 * (2::rat) powi ?e"
        by (intro mult_right_mono) simp_all
      then have "v \<le> 2 powi (?k + 1)" by (simp only: v_def k53)
      with le threshold_gt show ?thesis by linarith
    qed
    from nlo have "(of_int (2 ^ 52) :: rat) \<le> of_int ?n" by (simp only: of_int_le_iff)
    then have "2 ^ 52 * (2::rat) powi ?e \<le> of_int ?n * 2 powi ?e"
      by (intro mult_right_mono) simp_all
    then have vlo: "2 powi ?k \<le> v" by (simp add: v_def k52)
    then have vpos: "0 < v" using zero_less_power_int [of "2::rat" ?k] by linarith
    show ?thesis
    proof (cases "?n = 2 ^ 53")
      case True
      then have v: "v = 2 powi (?k + 1)" by (simp add: v_def k53)
      then have "2 powi (?k + 1) \<le> v" by simp
      moreover have "v < 2 powi (?k + 1 + 1)"
        unfolding v by (intro power_int_strict_increasing) simp_all
      ultimately have fl: "floor_log2 v = ?k + 1" by (rule floor_log2_unique)
      have "ulp_exp v = max (floor_log2 v - 52) (- 1074)" using vpos by (simp add: ulp_exp_def)
      then have ev: "ulp_exp v = ?e + 1"
        unfolding fl using \<open>- 1074 \<le> ?k - 52\<close> ek by (simp add: max_def)
      have "v / 2 powi (?e + 1) = 2 ^ 52"
        using pow2_add [of 52 "?e + 1"] by (simp add: v ek add.commute)
      then have "of_int \<lfloor>v / 2 powi (?e + 1)\<rfloor> = v / 2 powi (?e + 1)" by simp
      with vt vpos show ?thesis by (simp add: is_double_def ev)
    next
      case False
      with nhi have "?n < 2 ^ 53" by simp
      then have "(of_int ?n :: rat) < of_int (2 ^ 53)" by (simp only: of_int_less_iff)
      then have "of_int ?n * 2 powi ?e < 2 ^ 53 * (2::rat) powi ?e"
        by (intro mult_strict_right_mono) simp_all
      then have "v < 2 powi (?k + 1)" by (simp add: v_def k53)
      with vlo have fl: "floor_log2 v = ?k" by (rule floor_log2_unique)
      have "ulp_exp v = max (floor_log2 v - 52) (- 1074)" using vpos by (simp add: ulp_exp_def)
      then have ev: "ulp_exp v = ?e"
        unfolding fl using \<open>- 1074 \<le> ?k - 52\<close> ek by (simp add: max_def)
      have "v / 2 powi ?e = of_int ?n" by (simp add: v_def)
      then have "of_int \<lfloor>v / 2 powi ?e\<rfloor> = v / 2 powi ?e" by simp
      with vt vpos show ?thesis by (simp add: is_double_def ev)
    qed
  next
    case False
    with e have e1074: "?e = - 1074" by simp
    from False have "?k + 1 \<le> - 1022" by simp
    then have "(2::rat) powi (?k + 1) \<le> 2 powi (- 1022)" by (intro power_int_increasing) simp_all
    with kb(2) have alt: "a < 2 powi (- 1022)" by linarith
    have p: "(2::rat) powi (- 1022) = 2 ^ 52 * 2 powi (- 1074)"
      using pow2_add [of 52 "- 1074"] by simp
    from alt p have "?q < 2 ^ 52" by (simp add: e1074 field_simps)
    then have "?q \<le> of_int (2 ^ 52)" by simp
    then have nhi: "?n \<le> 2 ^ 52" by (rule round_half_even_le)
    then have "(of_int ?n :: rat) \<le> of_int (2 ^ 52)" by (simp only: of_int_le_iff)
    then have "of_int ?n * 2 powi (- 1074) \<le> 2 ^ 52 * (2::rat) powi (- 1074)"
      by (intro mult_right_mono) simp_all
    then have vhi: "v \<le> 2 powi (- 1022)" by (simp add: v_def e1074 p)
    have "(2::rat) powi (- 1022) \<le> 2 powi 1023" by (intro power_int_increasing) simp_all
    with vhi threshold_gt have vt: "v < overflow_threshold" by linarith
    show ?thesis
    proof (cases "v = 0")
      case True
      then show ?thesis by (simp add: is_double_def)
    next
      case False
      with v0 have vpos: "0 < v" by simp
      have "floor_log2 v \<le> floor_log2 (2 powi (- 1022))"
        using vpos vhi by (rule floor_log2_mono)
      also have "floor_log2 ((2::rat) powi (- 1022)) = - 1022"
        by (rule floor_log2_unique) (simp_all add: power_int_strict_increasing)
      finally have "floor_log2 v \<le> - 1022" .
      moreover have "ulp_exp v = max (floor_log2 v - 52) (- 1074)"
        using vpos by (simp add: ulp_exp_def)
      ultimately have "ulp_exp v = - 1074" by (simp add: max_def)
      moreover have "v / 2 powi (- 1074) = of_int ?n" by (simp add: v_def e1074)
      then have "of_int \<lfloor>v / 2 powi (- 1074)\<rfloor> = v / 2 powi (- 1074)" by simp
      ultimately show ?thesis using vt vpos by (simp add: is_double_def)
    qed
  qed
  with v0 show ?thesis by simp
qed

lemma is_double_minus: "is_double (- x) = is_double x"
  by (simp add: is_double_def ulp_exp_def)

lemma round_double_is_double:
  assumes "round_double x = Finite y"
  shows "is_double y"
proof (cases "x = 0")
  case True
  with assms show ?thesis by (simp add: round_double_def is_double_def)
next
  case False
  let ?v = "of_int (round_half_even (\<bar>x\<bar> / 2 powi ulp_exp \<bar>x\<bar>)) * 2 powi ulp_exp \<bar>x\<bar>"
  have u: "ulp_exp \<bar>x\<bar> = ulp_exp x" by (simp add: ulp_exp_def)
  from assms False have t: "\<bar>x\<bar> < overflow_threshold"
    by (auto simp: round_double_def split: if_splits)
  from False have "0 < \<bar>x\<bar>" by simp
  from rounded_is_double [OF this t] have d: "is_double ?v" by simp
  from assms False have "y = sgn x * ?v"
    by (auto simp: round_double_def u mult.assoc split: if_splits)
  then have "y = ?v \<or> y = - ?v" using False by (cases "0 < x") (simp_all add: sgn_if)
  with d show ?thesis by (auto simp: is_double_minus)
qed

lemma round_double_ge:
  assumes t: "0 \<le> t" "is_double t" and x: "t \<le> x"
  shows "round_double x = PInf \<or> (\<exists>y. round_double x = Finite y \<and> t \<le> y)"
proof (cases "t = 0")
  case True
  with round_double_nonneg [of x] x show ?thesis by simp
next
  case False
  with t(1) have tpos: "0 < t" by simp
  with x have xpos: "0 < x" by simp
  show ?thesis
  proof (cases "overflow_threshold \<le> x")
    case True
    with xpos show ?thesis by (simp add: round_double_def)
  next
    case False
    let ?et = "ulp_exp t" and ?ex = "ulp_exp x"
    let ?n = "round_half_even (x / 2 powi ?ex)"
    from False xpos threshold_pos have r: "round_double x = Finite (of_int ?n * 2 powi ?ex)"
      by (simp add: round_double_def)
    have et: "?et = max (floor_log2 t - 52) (- 1074)" using tpos by (simp add: ulp_exp_def)
    have ex: "?ex = max (floor_log2 x - 52) (- 1074)" using xpos by (simp add: ulp_exp_def)
    have kk: "floor_log2 t \<le> floor_log2 x" using tpos x by (rule floor_log2_mono)
    from t(2) tpos have m: "of_int \<lfloor>t / 2 powi ?et\<rfloor> = t / 2 powi ?et"
      by (simp add: is_double_def)
    have "t \<le> of_int ?n * 2 powi ?ex"
    proof (cases "?et = ?ex")
      case True
      from x have "t / 2 powi ?ex \<le> x / 2 powi ?ex" by (intro divide_right_mono) simp_all
      then have "of_int \<lfloor>t / 2 powi ?ex\<rfloor> \<le> x / 2 powi ?ex" by (simp only: m [unfolded True])
      then have "\<lfloor>t / 2 powi ?ex\<rfloor> \<le> ?n" by (rule round_half_even_ge)
      then have "(of_int \<lfloor>t / 2 powi ?ex\<rfloor> :: rat) \<le> of_int ?n" by (simp only: of_int_le_iff)
      then have "t / 2 powi ?ex \<le> of_int ?n" by (simp only: m [unfolded True])
      then show ?thesis by (simp add: field_simps)
    next
      case False
      with et ex kk have lt: "floor_log2 t + 1 \<le> floor_log2 x" and exk: "?ex = floor_log2 x - 52"
        by (simp_all add: max_def split: if_splits)
      have "floor_log2 x = 52 + ?ex" using exk by simp
      then have k52: "(2::rat) powi floor_log2 x = 2 powi 52 * 2 powi ?ex" by (simp only: pow2_add)
      from floor_log2_bounds(1) [OF xpos] k52 have "2 powi 52 \<le> x / 2 powi ?ex"
        by (simp add: field_simps)
      then have "of_int (2 ^ 52) \<le> x / 2 powi ?ex" by simp
      then have "2 ^ 52 \<le> ?n" by (rule round_half_even_ge)
      then have "(2::rat) ^ 52 \<le> of_int ?n" by simp
      then have "2 ^ 52 * (2::rat) powi ?ex \<le> of_int ?n * 2 powi ?ex"
        by (intro mult_right_mono) simp_all
      then have "(2::rat) powi floor_log2 x \<le> of_int ?n * 2 powi ?ex" using k52 by simp
      moreover from lt have "(2::rat) powi (floor_log2 t + 1) \<le> 2 powi floor_log2 x"
        by (intro power_int_increasing) simp_all
      ultimately show ?thesis using floor_log2_bounds(2) [OF tpos] by linarith
    qed
    with r show ?thesis by simp
  qed
qed

lemma is_double_scaled:
  assumes m: "\<bar>m\<bar> < 2 ^ 53" and e: "- 1074 \<le> e" "e \<le> 971"
  shows "is_double (of_int m * 2 powi e)"
proof (cases "m = 0")
  case True
  then show ?thesis by (simp add: is_double_def)
next
  case False
  let ?a = "of_int \<bar>m\<bar> * (2::rat) powi e"
  let ?b = "bitlen \<bar>m\<bar>"
  from False have mpos: "0 < \<bar>m\<bar>" by simp
  then have apos: "0 < ?a" by simp
  from bitlen_bounds [OF mpos] have lo: "2 ^ nat (?b - 1) \<le> \<bar>m\<bar>" and hi: "\<bar>m\<bar> < 2 ^ nat ?b"
    by simp_all
  from mpos have b1: "1 \<le> ?b" by (simp add: bitlen_alt_def)
  from m have b53: "?b \<le> 53" by (simp add: bitlen_le_iff_power)
  have "(2::rat) powi (?b - 1) = of_int (2 ^ nat (?b - 1))" using b1 by (simp add: power_int_def)
  also have "\<dots> \<le> of_int \<bar>m\<bar>" using lo by (simp only: of_int_le_iff)
  finally have "2 powi (?b - 1) * 2 powi e \<le> ?a" by (intro mult_right_mono) simp_all
  then have alo: "2 powi (?b - 1 + e) \<le> ?a" by (simp only: pow2_add)
  have "(of_int \<bar>m\<bar> :: rat) < of_int (2 ^ nat ?b)" using hi by (simp only: of_int_less_iff)
  also have "\<dots> = 2 powi ?b" using b1 by (simp add: power_int_def)
  finally have "?a < 2 powi ?b * 2 powi e" by (intro mult_strict_right_mono) simp_all
  then have "?a < 2 powi (?b - 1 + e + 1)" by (simp add: pow2_add)
  with alo have fl: "floor_log2 ?a = ?b - 1 + e" by (rule floor_log2_unique)
  define u where "u = ulp_exp ?a"
  have "u = max (floor_log2 ?a - 52) (- 1074)" using apos by (simp add: u_def ulp_exp_def abs_mult)
  with fl b53 e have ue: "u \<le> e" by (simp add: max_def)
  define d where "d = nat (e - u)"
  from ue have "e = int d + u" by (simp add: d_def)
  then have "(2::rat) powi e = 2 powi (int d) * 2 powi u" by (simp only: pow2_add)
  then have "?a / 2 powi u = of_int (\<bar>m\<bar> * 2 ^ d)" by simp
  then have "of_int \<lfloor>?a / 2 powi u\<rfloor> = ?a / 2 powi u" by simp
  then have grid: "of_int \<lfloor>?a / 2 powi ulp_exp ?a\<rfloor> = ?a / 2 powi ulp_exp ?a"
    by (simp only: u_def)
  from m have "\<bar>m\<bar> \<le> 2 ^ 53 - 1" by simp
  then have "(of_int \<bar>m\<bar> :: rat) \<le> of_int (2 ^ 53 - 1)" by (simp only: of_int_le_iff)
  then have "(of_int \<bar>m\<bar> :: rat) \<le> 2 ^ 53 - 1" by simp
  moreover from e have "(2::rat) powi e \<le> 2 powi 971" by (intro power_int_increasing) simp_all
  ultimately have "?a \<le> (2 ^ 53 - 1) * 2 powi 971" by (intro mult_mono) simp_all
  with threshold_max have "?a < overflow_threshold" by linarith
  with grid apos have "is_double ?a" by (simp add: is_double_def)
  moreover have "of_int m * 2 powi e = ?a \<or> of_int m * 2 powi e = - ?a"
    by (cases "0 \<le> m") simp_all
  ultimately show ?thesis by (auto simp: is_double_minus)
qed

lemma is_double_of_int: "\<bar>n\<bar> < 2 ^ 53 \<Longrightarrow> is_double (of_int n)"
  using is_double_scaled [of n 0] by simp

lemma round_double_0 [simp]: "round_double 0 = Finite 0"
  by (simp add: round_double_def)

lemma round_double_overflow: "overflow_threshold \<le> x \<Longrightarrow> round_double x = PInf"
  using threshold_pos by (auto simp: round_double_def)

lemma round_double_numeral:
  "(numeral k :: int) < 2 ^ 53 \<Longrightarrow> round_double (numeral k) = Finite (numeral k)"
  using round_double_exact [OF is_double_of_int [of "numeral k"]] by simp

lemma round_double_neg_numeral:
  "(numeral k :: int) < 2 ^ 53 \<Longrightarrow> round_double (- numeral k) = Finite (- numeral k)"
  using round_double_exact [OF is_double_of_int [of "- numeral k"]] by simp

lemma round_double_1 [simp]: "round_double 1 = Finite 1"
  using round_double_exact [OF is_double_of_int [of 1]] by simp

lemma float_of_int_small: "\<bar>n\<bar> < 2 ^ 53 \<Longrightarrow> float_of_int n = Inr (Finite (of_int n))"
proof -
  assume n: "\<bar>n\<bar> < 2 ^ 53"
  then have d: "is_double (of_int n)" by (rule is_double_of_int)
  then have "\<bar>rat_of_int n\<bar> < overflow_threshold \<or> n = 0" by (auto simp: is_double_def)
  with threshold_pos have "\<not> overflow_threshold \<le> \<bar>rat_of_int n\<bar>" by auto
  with d show ?thesis by (simp add: float_of_int_def round_double_exact)
qed

lemma float_of_int_numeral:
  "(numeral k :: int) < 2 ^ 53 \<Longrightarrow> float_of_int (numeral k) = Inr (Finite (numeral k))"
  using float_of_int_small [of "numeral k"] by simp

lemma float_of_int_1 [simp]: "float_of_int 1 = Inr (Finite 1)"
  using float_of_int_small [of 1] by simp

lemma round_double_finite:
  assumes "\<bar>x\<bar> < overflow_threshold"
  shows "\<exists>y. round_double x = Finite y"
proof -
  from assms have "\<not> overflow_threshold \<le> x" and "\<not> x \<le> - overflow_threshold" by linarith+
  then show ?thesis by (simp add: round_double_def)
qed

lemma float_of_int_finite:
  "float_of_int n = Inr f \<Longrightarrow> \<exists>y. f = Finite y \<and> is_double y \<and> (0 \<le> n \<longrightarrow> 0 \<le> y)"
proof -
  assume f: "float_of_int n = Inr f"
  then have t: "\<bar>rat_of_int n\<bar> < overflow_threshold" and r: "f = round_double (of_int n)"
    by (auto simp: float_of_int_def split: if_splits)
  from round_double_finite [OF t] r obtain y where y: "f = Finite y" by auto
  with r have "is_double y" using round_double_is_double [of "of_int n" y] by simp
  moreover have "0 \<le> n \<longrightarrow> 0 \<le> y" using round_double_nonneg [of "of_int n"] r y by auto
  ultimately show ?thesis using y by simp
qed

lemma float_le_trans: "float_le a b \<Longrightarrow> float_le b c \<Longrightarrow> float_le a c"
  by (cases a; cases b; cases c) simp_all

lemma float_lt_not_le: "a \<noteq> NaN \<Longrightarrow> b \<noteq> NaN \<Longrightarrow> float_lt a b = (\<not> float_le b a)"
  by (cases a; cases b) auto

lemma round_double_eval:
  assumes k: "2 powi k \<le> x" "x < 2 powi (k + 1)" "k \<le> 1022"
    and n: "round_half_even (x / 2 powi (max (k - 52) (- 1074))) = n"
  shows "round_double x = Finite (of_int n * 2 powi (max (k - 52) (- 1074)))"
proof -
  have "(0::rat) < 2 powi k" by simp
  with k(1) have pos: "0 < x" by linarith
  from k(3) have "(2::rat) powi (k + 1) \<le> 2 powi 1023" by (intro power_int_increasing) simp_all
  with k(2) threshold_gt have lt: "x < overflow_threshold" by linarith
  from k(1,2) have "floor_log2 x = k" by (rule floor_log2_unique)
  with pos have e: "ulp_exp x = max (k - 52) (- 1074)" by (simp add: ulp_exp_def)
  from pos lt threshold_pos show ?thesis
    by (simp add: round_double_def e n)
qed

lemma floor_rat_numeral:
  "\<lfloor>(numeral a :: rat) / numeral b\<rfloor> = numeral a div numeral b"
  using floor_divide_of_int_eq [of "numeral a" "numeral b", where ?'a = rat] by simp

lemmas eval_simps = round_double_numeral round_double_neg_numeral float_of_int_numeral
  float_mul_int_def float_sub_def float_gt_def get_share_price_def prices_def
  deposit_def withdraw_def buy_def sell_def record_transaction_def Account_init_def
  holdings_get_def

subsection \<open>Rejected calls\<close>

lemma holdings_get_Some: "0 < holdings_get h symb \<Longrightarrow> map_of h symb = Some (holdings_get h symb)"
  by (auto simp: holdings_get_def split: option.splits)

lemma holdings_get_update:
  "holdings_get (AList.update k v h) k' = (if k' = k then v else holdings_get h k')"
  by (simp add: holdings_get_def update_conv')


lemma buy_success:
  assumes "0 < qty" "gsp symb = Inr p" "float_mul_int p qty = Inr t"
    "\<not> float_gt t (cash_balance a)"
  shows "buy gsp now symb qty a =
    (Inr (), a\<lparr>cash_balance := float_sub (cash_balance a) t,
               holdings := AList.update symb (holdings_get (holdings a) symb + qty) (holdings a),
               transactions := transactions a @
                 [\<lparr>timestamp = now, type = BUY, amount = float_neg t,
                   symbol = Some symb, quantity = Some qty, share_price = Some p\<rparr>]\<rparr>)"
  using assms by (simp add: buy_def record_transaction_def Let_def)

lemma sell_success:
  assumes "0 < qty" "qty \<le> holdings_get (holdings a) symb" "gsp symb = Inr p"
    "float_mul_int p qty = Inr t"
  shows "sell gsp now symb qty a =
    (Inr (), a\<lparr>cash_balance := float_add (cash_balance a) t,
               holdings := (if holdings_get (holdings a) symb = qty
                            then AList.delete symb (holdings a)
                            else AList.update symb (holdings_get (holdings a) symb - qty) (holdings a)),
               transactions := transactions a @
                 [\<lparr>timestamp = now, type = SELL, amount = t,
                   symbol = Some symb, quantity = Some qty, share_price = Some p\<rparr>]\<rparr>)"
proof -
  from assms have m: "map_of (holdings a) symb = Some (holdings_get (holdings a) symb)"
    by (intro holdings_get_Some) arith
  show ?thesis using assms m
    by (simp add: sell_def record_transaction_def Let_def update_conv' delete_update_same)
qed

lemma float_mul_int_error: "float_mul_int p qty = Inl e \<Longrightarrow> e = OverflowError"
  by (auto simp: float_mul_int_def float_of_int_def split: if_splits sum.splits)

text \<open>
  What a call does, by cases on the validation: rejected with the error of the
  validation, or accepted; an accepted trade whose quantity has no double raises
  \<open>OverflowError\<close>; every other accepted call completes and appends one transaction.
\<close>

lemma perform_rejected:
  "spec_validation_error gsp op a = Some e \<Longrightarrow> perform gsp now op a = (Inl e, a)"
proof (induction gsp op a rule: spec_validation_error.induct)
  case (1 gsp amt a)
  then show ?case by (simp add: deposit_def split: if_splits)
next
  case (2 gsp amt a)
  then show ?case by (simp add: withdraw_def float_gt_def split: if_splits)
next
  case (3 gsp symb qty a)
  then show ?case by (auto simp: buy_def float_gt_def split: if_splits sum.splits)
next
  case (4 gsp symb qty a)
  then show ?case by (auto simp: sell_def Let_def split: if_splits sum.splits)
qed

lemma perform_accepted:
  assumes "spec_validation_error gsp op a = None"
  shows "(\<exists>a'. perform gsp now op a = (Inr (), a')
            \<and> length (transactions a') = Suc (length (transactions a)))
         \<or> perform gsp now op a = (Inl OverflowError, a)"
proof (cases op)
  case (Deposit amt)
  with assms show ?thesis
    by (simp add: deposit_def record_transaction_def split: if_splits)
next
  case (Withdraw amt)
  with assms show ?thesis
    by (simp add: withdraw_def record_transaction_def float_gt_def Let_def split: if_splits)
next
  case (Buy symb qty)
  from assms Buy obtain p where q: "0 < qty" and p: "gsp symb = Inr p"
    by (auto split: if_splits sum.splits)
  show ?thesis
  proof (cases "float_mul_int p qty")
    case (Inl e)
    then have "e = OverflowError" by (rule float_mul_int_error)
    with Inl Buy q p show ?thesis by (simp add: buy_def)
  next
    case (Inr t)
    with assms Buy q p have "\<not> float_gt t (cash_balance a)"
      by (simp add: float_gt_def split: if_splits)
    from buy_success [where gsp = gsp, OF q p Inr this, of now] Buy show ?thesis by simp
  qed
next
  case (Sell symb qty)
  from assms Sell obtain p where q: "0 < qty" and h: "qty \<le> holdings_get (holdings a) symb"
      and p: "gsp symb = Inr p"
    by (auto split: if_splits sum.splits)
  show ?thesis
  proof (cases "float_mul_int p qty")
    case (Inl e)
    then have "e = OverflowError" by (rule float_mul_int_error)
    with Inl Sell q h p show ?thesis by (simp add: sell_def)
  next
    case (Inr t)
    from sell_success [where gsp = gsp, OF q h p Inr, of now] Sell show ?thesis by simp
  qed
qed

lemma perform_failure_unchanged:
  assumes "fst (perform gsp now op a) = Inl e"
  shows "snd (perform gsp now op a) = a"
proof (cases "spec_validation_error gsp op a")
  case None
  from perform_accepted [OF None, of now] assms show ?thesis by auto
next
  case (Some e')
  from perform_rejected [OF Some, of now] show ?thesis by simp
qed





subsection \<open>Buying and selling\<close>

lemma round_double_examples:
  "round_double 18014398509482002 = Finite 18014398509482000"
  "round_double 18014398509482130 = Finite 18014398509482128"
  using round_double_eval [of 54 18014398509482002 4503599627370500]
    round_double_eval [of 54 18014398509482130 4503599627370532]
  by (simp_all add: round_half_even_def Let_def floor_rat_numeral)

lemma round_double_example2:
  "round_double 18014398509482132 = Finite 18014398509482132"
  using round_double_exact [OF is_double_scaled [of 4503599627370533 2]] by simp

text \<open>
  Claim C3, as amended. Take \<open>q > 0\<close>, a symbol that the price function prices at \<open>p\<close>,
  and let \<open>t\<close> be the double that \<open>price * quantity\<close> evaluates to. If \<open>t\<close> is not greater
  than the cash balance, \<open>buy\<close> succeeds: the cash balance becomes the double difference
  of the cash balance and \<open>t\<close>, the holding of the symbol is its former quantity (zero if
  there was no entry) plus \<open>q\<close>, no other holding changes, the total deposits are
  unchanged, and one \<open>BUY\<close> transaction with amount \<open>- t\<close>, quantity \<open>q\<close> and share price
  \<open>p\<close> is appended. If \<open>t\<close> is greater than the cash balance the call raises
  \<open>InsufficientFundsError\<close> and the account is unchanged. If \<open>q\<close> is too large for a
  double the call raises \<open>OverflowError\<close> and the account is unchanged. When the price
  function raises, \<open>buy\<close> raises that same error and the account is unchanged; for a
  symbol outside the table of \<open>get_share_price\<close> this is \<open>InvalidSymbolError\<close>, the
  specification's \<open>UnknownSymbolError\<close>. The product \<open>t\<close> is exactly \<open>p * q\<close> when
  \<open>q\<close> is below \<open>2 ^ 53\<close> and \<open>p * q\<close> is a double, and the new cash balance is the
  exact difference when that difference is a double.
\<close>

theorem buy_effect:
  assumes "0 < q"
  shows "(gsp symb = Inr p \<and> float_mul_int p q = Inr t \<and> \<not> float_gt t (cash_balance a) \<longrightarrow>
            fst (buy gsp now symb q a) = Inr ()
          \<and> cash_balance (snd (buy gsp now symb q a)) = float_sub (cash_balance a) t
          \<and> map_of (holdings (snd (buy gsp now symb q a))) symb
               = Some (holdings_get (holdings a) symb + q)
          \<and> (\<forall>s. s \<noteq> symb \<longrightarrow>
                map_of (holdings (snd (buy gsp now symb q a))) s = map_of (holdings a) s)
          \<and> transactions (snd (buy gsp now symb q a)) = transactions a @
               [\<lparr>timestamp = now, type = BUY, amount = float_neg t,
                 symbol = Some symb, quantity = Some q, share_price = Some p\<rparr>]
          \<and> total_deposits (snd (buy gsp now symb q a)) = total_deposits a)
       \<and> (gsp symb = Inr p \<and> float_mul_int p q = Inr t \<and> float_gt t (cash_balance a) \<longrightarrow>
            buy gsp now symb q a = (Inl InsufficientFundsError, a))
       \<and> (gsp symb = Inr p \<and> float_mul_int p q = Inl e \<longrightarrow>
            e = OverflowError \<and> buy gsp now symb q a = (Inl OverflowError, a))
       \<and> (gsp symb = Inl e \<longrightarrow> buy gsp now symb q a = (Inl e, a))
       \<and> (map_of prices symb = None \<longrightarrow>
            buy get_share_price now symb q a = (Inl (InvalidSymbolError symb), a))
       \<and> (p = Finite p0 \<and> \<bar>q\<bar> < 2 ^ 53 \<and> is_double (p0 * of_int q) \<longrightarrow>
            float_mul_int p q = Inr (Finite (p0 * of_int q)))
       \<and> (cash_balance a = Finite c \<and> t = Finite t0 \<and> is_double (c - t0) \<longrightarrow>
            float_sub (cash_balance a) t = Finite (c - t0))"
proof (intro conjI impI)
  assume "gsp symb = Inr p \<and> float_mul_int p q = Inr t \<and> float_gt t (cash_balance a)"
  with assms show "buy gsp now symb q a = (Inl InsufficientFundsError, a)"
    by (simp add: buy_def)
next
  assume "gsp symb = Inr p \<and> float_mul_int p q = Inl e"
  then show "e = OverflowError" by (auto dest: float_mul_int_error)
next
  assume a: "gsp symb = Inr p \<and> float_mul_int p q = Inl e"
  then have "e = OverflowError" by (auto dest: float_mul_int_error)
  with a assms show "buy gsp now symb q a = (Inl OverflowError, a)"
    by (simp add: buy_def)
next
  assume "gsp symb = Inl e"
  with assms show "buy gsp now symb q a = (Inl e, a)"
    by (simp add: buy_def)
next
  assume "map_of prices symb = None"
  with assms show "buy get_share_price now symb q a = (Inl (InvalidSymbolError symb), a)"
    by (simp add: buy_def get_share_price_def)
next
  assume "p = Finite p0 \<and> \<bar>q\<bar> < 2 ^ 53 \<and> is_double (p0 * of_int q)"
  then show "float_mul_int p q = Inr (Finite (p0 * of_int q))"
    by (simp add: float_mul_int_def float_of_int_small round_double_exact)
next
  assume "cash_balance a = Finite c \<and> t = Finite t0 \<and> is_double (c - t0)"
  then show "float_sub (cash_balance a) t = Finite (c - t0)"
    by (simp add: float_sub_def round_double_exact)
qed (simp_all add: buy_success [where gsp = gsp, OF assms] update_conv')

theorem buy_effect_witness:
  "(0::int) < 5
   \<and> get_share_price ''AAPL'' = Inr (Finite 150)
   \<and> float_mul_int (Finite 150) 5 = Inr (Finite 750)
   \<and> \<not> float_gt (Finite 750)
        (cash_balance (snd (deposit 0 (Finite 1000) (Account_init ''12345'' ''Test User''))))
   \<and> buy get_share_price 1 ''AAPL'' 5
        (snd (deposit 0 (Finite 1000) (Account_init ''12345'' ''Test User'')))
       = (Inr (),
          \<lparr>account_id = ''12345'', user_name = ''Test User'', cash_balance = Finite 250,
           total_deposits = Finite 1000, holdings = [(''AAPL'', 5)],
           transactions =
             [\<lparr>timestamp = 0, type = DEPOSIT, amount = Finite 1000, symbol = None,
               quantity = None, share_price = None\<rparr>,
              \<lparr>timestamp = 1, type = BUY, amount = Finite (- 750), symbol = Some ''AAPL'',
               quantity = Some 5, share_price = Some (Finite 150)\<rparr>]\<rparr>)
   \<and> is_double (150 * of_int 5)
   \<and> is_double (1000 - 750)
   \<and> float_sub (cash_balance (snd (deposit 0 (Finite 1000)
        (Account_init ''12345'' ''Test User'')))) (Finite 750) = Finite (1000 - 750)
   \<and> float_mul_int (Finite 150) 1 = Inr (Finite 150)
   \<and> float_gt (Finite 150)
        (cash_balance (snd (deposit 0 (Finite 100) (Account_init ''12345'' ''Test User''))))
   \<and> buy get_share_price 1 ''AAPL'' 1
        (snd (deposit 0 (Finite 100) (Account_init ''12345'' ''Test User'')))
       = (Inl InsufficientFundsError,
          snd (deposit 0 (Finite 100) (Account_init ''12345'' ''Test User'')))
   \<and> float_mul_int (Finite 150) (2 ^ 1024) = Inl OverflowError
   \<and> buy get_share_price 1 ''AAPL'' (2 ^ 1024)
        (snd (deposit 0 (Finite 1000) (Account_init ''12345'' ''Test User'')))
       = (Inl OverflowError, snd (deposit 0 (Finite 1000) (Account_init ''12345'' ''Test User'')))
   \<and> get_share_price ''INVALID'' = Inl (InvalidSymbolError ''INVALID'')
   \<and> map_of prices ''INVALID'' = None
   \<and> buy get_share_price 1 ''INVALID'' 2
        (snd (deposit 0 (Finite 500) (Account_init ''12345'' ''Test User'')))
       = (Inl (InvalidSymbolError ''INVALID''),
          snd (deposit 0 (Finite 500) (Account_init ''12345'' ''Test User'')))"
proof -
  let ?rich = "snd (deposit 0 (Finite 1000) (Account_init ''12345'' ''Test User''))"
  let ?poor = "snd (deposit 0 (Finite 100) (Account_init ''12345'' ''Test User''))"
  let ?other = "snd (deposit 0 (Finite 500) (Account_init ''12345'' ''Test User''))"
  have p: "get_share_price ''AAPL'' = Inr (Finite 150)"
    and u: "get_share_price ''INVALID'' = Inl (InvalidSymbolError ''INVALID'')"
    and n: "map_of prices ''INVALID'' = None"
    by (simp_all add: get_share_price_def prices_def)
  have m5: "float_mul_int (Finite 150) 5 = Inr (Finite 750)"
    and m1: "float_mul_int (Finite 150) 1 = Inr (Finite 150)"
    by (simp_all add: eval_simps)
  have o: "float_mul_int (Finite 150) (2 ^ 1024) = Inl OverflowError"
    by (simp add: float_mul_int_def float_of_int_def overflow_threshold_def)
  have d: "cash_balance ?rich = Finite 1000" and d': "cash_balance ?poor = Finite 100"
    by (simp_all add: eval_simps)
  have g: "\<not> float_gt (Finite 750) (cash_balance ?rich)"
    and g': "float_gt (Finite 150) (cash_balance ?poor)"
    by (simp_all add: d d' float_gt_def)
  have i5: "is_double (150 * of_int 5)" and i: "is_double (1000 - 750)"
    using is_double_of_int [of 750] is_double_of_int [of 250] by simp_all
  have q: "(0::int) < 5" "(0::int) < 1" "(0::int) < 2" "(0::int) < 2 ^ 1024" by simp_all
  note ok = buy_effect [OF q(1), where gsp = get_share_price and symb = "''AAPL''"
      and p = "Finite 150" and t = "Finite 750" and now = 1 and a = ?rich
      and ?p0.0 = 150 and c = 1000 and ?t0.0 = 750 and e = OverflowError]
  note poor = buy_effect [OF q(2), where gsp = get_share_price and symb = "''AAPL''"
      and p = "Finite 150" and t = "Finite 150" and now = 1 and a = ?poor
      and ?p0.0 = 150 and c = 100 and ?t0.0 = 150 and e = OverflowError]
  note huge = buy_effect [OF q(4), where gsp = get_share_price and symb = "''AAPL''"
      and p = "Finite 150" and e = OverflowError and now = 1 and a = ?rich
      and t = NaN and ?p0.0 = 150 and c = 1000 and ?t0.0 = 0]
  note unknown = buy_effect [OF q(3), where gsp = get_share_price and symb = "''INVALID''"
      and now = 1 and e = "InvalidSymbolError ''INVALID''" and a = ?other
      and p = NaN and t = NaN and ?p0.0 = 0 and c = 500 and ?t0.0 = 0]
  have b: "buy get_share_price 1 ''AAPL'' 5 ?rich
       = (Inr (),
          \<lparr>account_id = ''12345'', user_name = ''Test User'', cash_balance = Finite 250,
           total_deposits = Finite 1000, holdings = [(''AAPL'', 5)],
           transactions =
             [\<lparr>timestamp = 0, type = DEPOSIT, amount = Finite 1000, symbol = None,
               quantity = None, share_price = None\<rparr>,
              \<lparr>timestamp = 1, type = BUY, amount = Finite (- 750), symbol = Some ''AAPL'',
               quantity = Some 5, share_price = Some (Finite 150)\<rparr>]\<rparr>)"
    by (simp add: eval_simps)
  from ok d i have x: "float_sub (cash_balance ?rich) (Finite 750) = Finite (1000 - 750)"
    by blast
  from poor p m1 g' have b': "buy get_share_price 1 ''AAPL'' 1 ?poor
      = (Inl InsufficientFundsError, ?poor)" by blast
  from huge p o have h: "buy get_share_price 1 ''AAPL'' (2 ^ 1024) ?rich
      = (Inl OverflowError, ?rich)" by blast
  from unknown u have k: "buy get_share_price 1 ''INVALID'' 2 ?other
       = (Inl (InvalidSymbolError ''INVALID''), ?other)" by blast
  show ?thesis
    by (intro conjI) (fact q(1) p m5 g b i5 i x m1 g' b' o h u n k)+
qed

text \<open>
  Claim C3, as stated, fails. With a cash balance of 18014398509482132 (a double, and
  the result of one deposit), buying one GOOGL share at 130 succeeds and leaves
  18014398509482000: the balance goes down by 132, since the exact difference lies
  halfway between two doubles.
\<close>

theorem buy_exact_cost_counterexample:
  "deposit 0 (Finite 18014398509482132) (Account_init ''12345'' ''Test User'')
     = (Inr (),
        \<lparr>account_id = ''12345'', user_name = ''Test User'',
         cash_balance = Finite 18014398509482132, total_deposits = Finite 18014398509482132,
         holdings = [],
         transactions =
           [\<lparr>timestamp = 0, type = DEPOSIT, amount = Finite 18014398509482132, symbol = None,
             quantity = None, share_price = None\<rparr>]\<rparr>)
   \<and> get_share_price ''GOOGL'' = Inr (Finite 130)
   \<and> float_mul_int (Finite 130) 1 = Inr (Finite 130)
   \<and> fst (buy get_share_price 1 ''GOOGL'' 1
        \<lparr>account_id = ''12345'', user_name = ''Test User'',
         cash_balance = Finite 18014398509482132, total_deposits = Finite 18014398509482132,
         holdings = [],
         transactions =
           [\<lparr>timestamp = 0, type = DEPOSIT, amount = Finite 18014398509482132, symbol = None,
             quantity = None, share_price = None\<rparr>]\<rparr>) = Inr ()
   \<and> cash_balance (snd (buy get_share_price 1 ''GOOGL'' 1
        \<lparr>account_id = ''12345'', user_name = ''Test User'',
         cash_balance = Finite 18014398509482132, total_deposits = Finite 18014398509482132,
         holdings = [],
         transactions =
           [\<lparr>timestamp = 0, type = DEPOSIT, amount = Finite 18014398509482132, symbol = None,
             quantity = None, share_price = None\<rparr>]\<rparr>)) = Finite 18014398509482000
   \<and> Finite 18014398509482000 \<noteq> Finite (18014398509482132 - 130)"
  by (simp add: eval_simps round_double_examples round_double_example2)




subsection \<open>Total deposits and cash balance\<close>

lemma is_float_round_double [simp]: "is_float (round_double x)"
  by (cases "round_double x") (simp_all add: round_double_is_double)

lemma is_float_add [simp]: "is_float (float_add a b)"
  by (cases a; cases b) simp_all

lemma float_add_not_negative:
  assumes "\<not> float_lt a (Finite 0)" "\<not> float_lt b (Finite 0)"
  shows "\<not> float_lt (float_add a b) (Finite 0)"
proof (cases a)
  case a: (Finite x)
  show ?thesis
  proof (cases b)
    case (Finite y)
    with a assms have "0 \<le> x + y" by simp
    from round_double_nonneg [OF this] a Finite show ?thesis by auto
  qed (use a assms in simp_all)
qed (use assms in \<open>cases b; simp\<close>)+

lemma float_sub_not_negative:
  assumes "\<not> float_lt c (Finite 0)" "\<not> float_gt x c"
  shows "\<not> float_lt (float_sub c x) (Finite 0)"
proof (cases c)
  case c: (Finite r)
  show ?thesis
  proof (cases x)
    case (Finite y)
    with c assms have "0 \<le> r + - y" by (simp add: float_gt_def)
    from round_double_nonneg [OF this] c Finite show ?thesis by (auto simp: float_sub_def)
  qed (use c assms in \<open>simp_all add: float_sub_def float_gt_def\<close>)
qed (use assms in \<open>cases x; simp add: float_sub_def float_gt_def\<close>)+

lemma not_le_zero_not_negative: "\<not> float_le amt (Finite 0) \<Longrightarrow> \<not> float_lt amt (Finite 0)"
  by (cases amt) simp_all

lemma get_share_price_positive:
  "get_share_price symb = Inr p \<Longrightarrow> \<exists>p0. p = Finite p0 \<and> 0 < p0"
  by (auto simp: get_share_price_def prices_def split: if_splits)

lemma proceeds_not_negative:
  assumes "get_share_price symb = Inr p" "0 < q" "float_mul_int p q = Inr t"
  shows "\<not> float_lt t (Finite 0)"
proof -
  from assms(1) obtain p0 where p: "p = Finite p0" "0 < p0"
    by (auto dest: get_share_price_positive)
  from assms(3) obtain f where f: "float_of_int q = Inr f" and t: "t = float_mul p f"
    by (auto simp: float_mul_int_def split: sum.splits)
  from float_of_int_finite [OF f] assms(2) obtain y where y: "f = Finite y" "0 \<le> y" by auto
  with p have "0 \<le> p0 * y" by simp
  from round_double_nonneg [OF this] t p y show ?thesis by auto
qed

lemma perform_total_deposits:
  "total_deposits (snd (perform gsp now op a)) =
     (case op of
        Deposit d \<Rightarrow> if float_le d (Finite 0) then total_deposits a
                     else float_add (total_deposits a) d
      | _ \<Rightarrow> total_deposits a)"
proof (cases "fst (perform gsp now op a)")
  case (Inl e)
  then have "snd (perform gsp now op a) = a" by (rule perform_failure_unchanged)
  moreover from Inl have "float_le d (Finite 0)" if "op = Deposit d" for d
    using that by (simp add: deposit_def record_transaction_def split: if_splits)
  ultimately show ?thesis by (cases op) simp_all
next
  case (Inr u)
  show ?thesis
  proof (cases op)
    case (Deposit d)
    with Inr show ?thesis
      by (simp add: deposit_def record_transaction_def split: if_splits)
  next
    case (Withdraw amt)
    with Inr show ?thesis
      by (simp add: withdraw_def record_transaction_def split: if_splits)
  next
    case (Buy symb q)
    with Inr show ?thesis
      by (simp add: buy_def record_transaction_def split: if_splits sum.splits)
  next
    case (Sell symb q)
    with Inr obtain p t where "0 < q" "q \<le> holdings_get (holdings a) symb" "gsp symb = Inr p"
      "float_mul_int p q = Inr t"
      by (auto simp: sell_def Let_def split: if_splits sum.splits)
    from sell_success [where gsp = gsp, OF this, of now] Sell show ?thesis by simp
  qed
qed

text \<open>
  The total deposits of an account built by calls are a float that is not negative, and
  a deposit never makes them smaller, unless it makes them NaN.
\<close>

lemma total_deposits_step:
  assumes "is_float t" "\<not> float_lt t (Finite 0)" "\<not> float_le d (Finite 0)"
  shows "\<not> float_lt (float_add t d) (Finite 0)"
    and "float_add t d = NaN \<or> float_le t (float_add t d)"
proof -
  from assms(2) not_le_zero_not_negative [OF assms(3)]
  show "\<not> float_lt (float_add t d) (Finite 0)"
    by (rule float_add_not_negative)
  show "float_add t d = NaN \<or> float_le t (float_add t d)"
  proof (cases t)
    case t: (Finite r)
    show ?thesis
    proof (cases d)
      case (Finite x)
      with t assms have "0 \<le> r" "is_double r" "r \<le> r + x" by simp_all
      from round_double_ge [OF this] t Finite show ?thesis by auto
    qed (use t assms in simp_all)
  qed (use assms in \<open>cases d; simp\<close>)+
qed

lemma run_total_deposits:
  assumes "is_float (total_deposits a)" "\<not> float_lt (total_deposits a) (Finite 0)"
  shows "is_float (total_deposits (run gsp a ops))
       \<and> \<not> float_lt (total_deposits (run gsp a ops)) (Finite 0)
       \<and> (total_deposits (run gsp a ops) = NaN
          \<or> float_le (total_deposits a) (total_deposits (run gsp a ops)))"
  using assms
proof (induction ops arbitrary: a)
  case Nil
  then show ?case by (cases "total_deposits a") simp_all
next
  case (Cons x ops)
  obtain now op where x: "x = (now, op)" by (cases x)
  let ?a1 = "snd (perform gsp now op a)"
  have step: "is_float (total_deposits ?a1) \<and> \<not> float_lt (total_deposits ?a1) (Finite 0)
      \<and> (total_deposits ?a1 = NaN \<or> float_le (total_deposits a) (total_deposits ?a1))"
  proof (cases "\<exists>d. op = Deposit d \<and> \<not> float_le d (Finite 0)")
    case True
    then obtain d where d: "op = Deposit d" "\<not> float_le d (Finite 0)" by auto
    have "total_deposits ?a1 = float_add (total_deposits a) d"
      using perform_total_deposits [of gsp now op a] d by simp
    with total_deposits_step [OF Cons.prems d(2)] show ?thesis by simp
  next
    case False
    then have "total_deposits ?a1 = total_deposits a"
      by (auto simp: perform_total_deposits split: operation.splits)
    with Cons.prems show ?thesis by (cases "total_deposits a") simp_all
  qed
  from step Cons.IH [of ?a1]
  have ih: "is_float (total_deposits (run gsp ?a1 ops))"
    "\<not> float_lt (total_deposits (run gsp ?a1 ops)) (Finite 0)"
    "total_deposits (run gsp ?a1 ops) = NaN
       \<or> float_le (total_deposits ?a1) (total_deposits (run gsp ?a1 ops))"
    by simp_all
  from step ih(3) have "total_deposits (run gsp ?a1 ops) = NaN
       \<or> float_le (total_deposits a) (total_deposits (run gsp ?a1 ops))"
    by (auto intro: float_le_trans)
  with ih show ?case by (simp add: x)
qed

lemma run_append: "run gsp a (ops1 @ ops2) = run gsp (run gsp a ops1) ops2"
  by (induction ops1 arbitrary: a) auto

lemma round_double_examples3:
  "round_double 9007199254740992 = Finite 9007199254740992"
  "round_double 9007199254740993 = Finite 9007199254740992"
  using round_double_exact [OF is_double_scaled [of 4503599627370496 1]]
    round_double_eval [of 53 9007199254740993 4503599627370496]
  by (simp_all add: round_half_even_def Let_def floor_rat_numeral)

text \<open>
  Claim C8, as amended. A deposit of \<open>d > 0\<close> succeeds, replaces the cash balance and the
  total deposits by their double sums with \<open>d\<close>, and appends one \<open>DEPOSIT\<close> transaction
  with amount \<open>d\<close>; a deposit of \<open>d \<le> 0\<close> raises \<open>ValueError\<close> and changes nothing.
  Each sum is the exact sum when that is a double. The calls \<open>withdraw\<close>, \<open>buy\<close> and
  \<open>sell\<close> leave the total deposits as they are, whether they succeed or raise. So over
  any sequence of calls on a fresh account the total deposits never go down, unless they
  become NaN.
\<close>

theorem total_deposits_changed_by_deposit_only:
  "(float_lt (Finite 0) d \<longrightarrow>
      deposit now d a =
        (Inr (), a\<lparr>cash_balance := float_add (cash_balance a) d,
                   total_deposits := float_add (total_deposits a) d,
                   transactions := transactions a @
                     [\<lparr>timestamp = now, type = DEPOSIT, amount = d, symbol = None,
                       quantity = None, share_price = None\<rparr>]\<rparr>))
   \<and> (float_le d (Finite 0) \<longrightarrow> deposit now d a = (Inl ValueError, a))
   \<and> (cash_balance a = Finite c \<and> d = Finite d0 \<and> is_double (c + d0) \<longrightarrow>
        float_add (cash_balance a) d = Finite (c + d0))
   \<and> (total_deposits a = Finite s \<and> d = Finite d0 \<and> is_double (s + d0) \<longrightarrow>
        float_add (total_deposits a) d = Finite (s + d0))
   \<and> total_deposits (snd (withdraw now amt a)) = total_deposits a
   \<and> total_deposits (snd (buy gsp now symb q a)) = total_deposits a
   \<and> total_deposits (snd (sell gsp now symb q a)) = total_deposits a
   \<and> (total_deposits (run gsp (Account_init aid uname) (ops1 @ ops2)) = NaN
      \<or> float_le (total_deposits (run gsp (Account_init aid uname) ops1))
           (total_deposits (run gsp (Account_init aid uname) (ops1 @ ops2))))"
proof (intro conjI impI)
  assume "float_lt (Finite 0) d"
  then have "\<not> float_le d (Finite 0)" by (cases d) simp_all
  then show "deposit now d a =
        (Inr (), a\<lparr>cash_balance := float_add (cash_balance a) d,
                   total_deposits := float_add (total_deposits a) d,
                   transactions := transactions a @
                     [\<lparr>timestamp = now, type = DEPOSIT, amount = d, symbol = None,
                       quantity = None, share_price = None\<rparr>]\<rparr>)"
    by (simp add: deposit_def record_transaction_def)
next
  assume "float_le d (Finite 0)"
  then show "deposit now d a = (Inl ValueError, a)" by (simp add: deposit_def)
next
  assume "cash_balance a = Finite c \<and> d = Finite d0 \<and> is_double (c + d0)"
  then show "float_add (cash_balance a) d = Finite (c + d0)" by (simp add: round_double_exact)
next
  assume "total_deposits a = Finite s \<and> d = Finite d0 \<and> is_double (s + d0)"
  then show "float_add (total_deposits a) d = Finite (s + d0)" by (simp add: round_double_exact)
next
  show "total_deposits (snd (withdraw now amt a)) = total_deposits a"
    using perform_total_deposits [of gsp now "Withdraw amt" a] by simp
next
  show "total_deposits (snd (buy gsp now symb q a)) = total_deposits a"
    using perform_total_deposits [of gsp now "Buy symb q" a] by simp
next
  show "total_deposits (snd (sell gsp now symb q a)) = total_deposits a"
    using perform_total_deposits [of gsp now "Sell symb q" a] by simp
next
  let ?a1 = "run gsp (Account_init aid uname) ops1"
  have z: "is_float (Finite 0)" "\<not> float_lt (Finite 0) (Finite 0)"
    by (simp_all add: is_double_def)
  then have "is_float (total_deposits ?a1)" "\<not> float_lt (total_deposits ?a1) (Finite 0)"
    using run_total_deposits [of "Account_init aid uname" gsp ops1]
    by (simp_all add: Account_init_def)
  from run_total_deposits [OF this, of gsp ops2]
  show "total_deposits (run gsp (Account_init aid uname) (ops1 @ ops2)) = NaN
      \<or> float_le (total_deposits ?a1)
           (total_deposits (run gsp (Account_init aid uname) (ops1 @ ops2)))"
    by (simp add: run_append)
qed

theorem total_deposits_changed_by_deposit_only_witness:
  "float_lt (Finite 0) (Finite 500)
   \<and> deposit 0 (Finite 500) (Account_init ''12345'' ''Test User'') =
        (Inr (), \<lparr>account_id = ''12345'', user_name = ''Test User'', cash_balance = Finite 500,
                  total_deposits = Finite 500, holdings = [],
                  transactions =
                     [\<lparr>timestamp = 0, type = DEPOSIT, amount = Finite 500, symbol = None,
                       quantity = None, share_price = None\<rparr>]\<rparr>)
   \<and> is_double (0 + 500)
   \<and> float_add (cash_balance (Account_init ''12345'' ''Test User'')) (Finite 500)
       = Finite (0 + 500)
   \<and> float_add (total_deposits (Account_init ''12345'' ''Test User'')) (Finite 500)
       = Finite (0 + 500)
   \<and> float_le (Finite (- 100)) (Finite 0)
   \<and> deposit 0 (Finite (- 100)) (Account_init ''12345'' ''Test User'')
        = (Inl ValueError, Account_init ''12345'' ''Test User'')
   \<and> total_deposits (run get_share_price (Account_init ''12345'' ''Test User'')
        [(0, Deposit (Finite 500))]) = Finite 500
   \<and> total_deposits (run get_share_price (Account_init ''12345'' ''Test User'')
        ([(0, Deposit (Finite 500))] @ [(1, Withdraw (Finite 200)), (2, Deposit (Finite 100))]))
       = Finite 600
   \<and> float_le (Finite 500) (Finite 600)"
proof -
  let ?a = "Account_init ''12345'' ''Test User''"
  have h: "float_lt (Finite 0) (Finite 500)" "float_le (Finite (- 100)) (Finite 0)"
    "float_le (Finite 500) (Finite 600)" by simp_all
  have i: "is_double (0 + 500)" using is_double_of_int [of 500] by simp
  have c: "cash_balance ?a = Finite 0" "total_deposits ?a = Finite 0"
    by (simp_all add: Account_init_def)
  note pos = total_deposits_changed_by_deposit_only
    [where d = "Finite 500" and now = 0 and a = ?a and c = 0 and s = 0 and ?d0.0 = 500
       and gsp = get_share_price and aid = "''12345''" and uname = "''Test User''"
       and ?ops1.0 = "[(0, Deposit (Finite 500))]"
       and ?ops2.0 = "[(1, Withdraw (Finite 200)), (2, Deposit (Finite 100))]"
       and amt = "Finite 1" and symb = "''AAPL''" and q = 1]
  note neg = total_deposits_changed_by_deposit_only
    [where d = "Finite (- 100)" and now = 0 and a = ?a and c = 0 and s = 0 and ?d0.0 = 0
       and gsp = get_share_price and aid = "''12345''" and uname = "''Test User''"
       and ?ops1.0 = "[]" and ?ops2.0 = "[]"
       and amt = "Finite 1" and symb = "''AAPL''" and q = 1]
  from pos h(1) have d: "deposit 0 (Finite 500) ?a =
        (Inr (), ?a\<lparr>cash_balance := float_add (cash_balance ?a) (Finite 500),
                   total_deposits := float_add (total_deposits ?a) (Finite 500),
                   transactions := transactions ?a @
                     [\<lparr>timestamp = 0, type = DEPOSIT, amount = Finite 500, symbol = None,
                       quantity = None, share_price = None\<rparr>]\<rparr>)" by blast
  from pos c i have x: "float_add (cash_balance ?a) (Finite 500) = Finite (0 + 500)"
    and y: "float_add (total_deposits ?a) (Finite 500) = Finite (0 + 500)" by blast+
  have d': "deposit 0 (Finite 500) ?a =
        (Inr (), \<lparr>account_id = ''12345'', user_name = ''Test User'', cash_balance = Finite 500,
                  total_deposits = Finite 500, holdings = [],
                  transactions =
                     [\<lparr>timestamp = 0, type = DEPOSIT, amount = Finite 500, symbol = None,
                       quantity = None, share_price = None\<rparr>]\<rparr>)"
    unfolding d x y by (simp add: Account_init_def)
  from neg h(2) have n: "deposit 0 (Finite (- 100)) ?a = (Inl ValueError, ?a)" by blast
  have r1: "total_deposits (run get_share_price ?a [(0, Deposit (Finite 500))]) = Finite 500"
    and r2: "total_deposits (run get_share_price ?a
        ([(0, Deposit (Finite 500))] @ [(1, Withdraw (Finite 200)), (2, Deposit (Finite 100))]))
       = Finite 600"
    by (simp_all add: eval_simps)
  show ?thesis
    by (intro conjI) (fact h i x y d' n r1 r2)+
qed

text \<open>
  Claim C8, as stated, fails. After a deposit of 9007199254740992, which is \<open>2 ^ 53\<close>, a
  deposit of 1 succeeds and records a transaction with amount 1, but the cash balance and
  the total deposits are what they were: the exact sum lies halfway between two doubles
  and rounds back.
\<close>

theorem deposit_exact_amount_counterexample:
  "deposit 0 (Finite 9007199254740992) (Account_init ''12345'' ''Test User'')
     = (Inr (),
        \<lparr>account_id = ''12345'', user_name = ''Test User'',
         cash_balance = Finite 9007199254740992, total_deposits = Finite 9007199254740992,
         holdings = [],
         transactions =
           [\<lparr>timestamp = 0, type = DEPOSIT, amount = Finite 9007199254740992, symbol = None,
             quantity = None, share_price = None\<rparr>]\<rparr>)
   \<and> float_lt (Finite 0) (Finite 1)
   \<and> deposit 1 (Finite 1)
        \<lparr>account_id = ''12345'', user_name = ''Test User'',
         cash_balance = Finite 9007199254740992, total_deposits = Finite 9007199254740992,
         holdings = [],
         transactions =
           [\<lparr>timestamp = 0, type = DEPOSIT, amount = Finite 9007199254740992, symbol = None,
             quantity = None, share_price = None\<rparr>]\<rparr>
     = (Inr (),
        \<lparr>account_id = ''12345'', user_name = ''Test User'',
         cash_balance = Finite 9007199254740992, total_deposits = Finite 9007199254740992,
         holdings = [],
         transactions =
           [\<lparr>timestamp = 0, type = DEPOSIT, amount = Finite 9007199254740992, symbol = None,
             quantity = None, share_price = None\<rparr>,
            \<lparr>timestamp = 1, type = DEPOSIT, amount = Finite 1, symbol = None,
             quantity = None, share_price = None\<rparr>]\<rparr>)
   \<and> Finite 9007199254740992 \<noteq> Finite (9007199254740992 + 1)"
  by (simp add: eval_simps round_double_examples3)

lemma perform_cash_not_negative:
  assumes "\<not> float_lt (cash_balance a) (Finite 0)"
  shows "\<not> float_lt (cash_balance (snd (perform get_share_price now op a))) (Finite 0)"
proof (cases "fst (perform get_share_price now op a)")
  case (Inl e)
  then have "snd (perform get_share_price now op a) = a" by (rule perform_failure_unchanged)
  with assms show ?thesis by simp
next
  case (Inr u)
  show ?thesis
  proof (cases op)
    case (Deposit d)
    with Inr have "\<not> float_le d (Finite 0)"
      and "cash_balance (snd (perform get_share_price now op a)) = float_add (cash_balance a) d"
      by (simp_all add: deposit_def record_transaction_def split: if_splits)
    with assms show ?thesis
      by (simp add: float_add_not_negative not_le_zero_not_negative)
  next
    case (Withdraw amt)
    with Inr have "\<not> float_gt amt (cash_balance a)"
      and "cash_balance (snd (perform get_share_price now op a)) = float_sub (cash_balance a) amt"
      by (simp_all add: withdraw_def record_transaction_def split: if_splits)
    with assms show ?thesis by (simp add: float_sub_not_negative)
  next
    case (Buy symb q)
    with Inr obtain p t where "0 < q" "get_share_price symb = Inr p" "float_mul_int p q = Inr t"
      "\<not> float_gt t (cash_balance a)"
      by (auto simp: buy_def split: if_splits sum.splits)
    from buy_success [where gsp = get_share_price, OF this, of now] Buy this(4) assms
    show ?thesis by (simp add: float_sub_not_negative)
  next
    case (Sell symb q)
    with Inr obtain p t where s: "0 < q" "q \<le> holdings_get (holdings a) symb"
      "get_share_price symb = Inr p" "float_mul_int p q = Inr t"
      by (auto simp: sell_def Let_def split: if_splits sum.splits)
    from proceeds_not_negative [OF s(3) s(1) s(4)] assms
    have "\<not> float_lt (float_add (cash_balance a) t) (Finite 0)"
      by (intro float_add_not_negative)
    with sell_success [where gsp = get_share_price, OF s, of now] Sell show ?thesis by simp
  qed
qed

lemma run_cash_not_negative:
  "\<not> float_lt (cash_balance a) (Finite 0) \<Longrightarrow>
   \<not> float_lt (cash_balance (run get_share_price a ops)) (Finite 0)"
proof (induction ops arbitrary: a)
  case Nil
  then show ?case by simp
next
  case (Cons x ops)
  obtain now op where x: "x = (now, op)" by (cases x)
  from Cons.prems
  have "\<not> float_lt (cash_balance (snd (perform get_share_price now op a))) (Finite 0)"
    by (rule perform_cash_not_negative)
  then have "\<not> float_lt (cash_balance
      (run get_share_price (snd (perform get_share_price now op a)) ops)) (Finite 0)"
    by (rule Cons.IH)
  then show ?case by (simp add: x)
qed

text \<open>
  Claim C2, as amended. After any sequence of \<open>deposit\<close>, \<open>withdraw\<close>, \<open>buy\<close> and
  \<open>sell\<close> calls on a fresh account, with the exceptions caught by the caller, the cash
  balance is not less than zero; it is greater than or equal to zero unless it is NaN.
  The sequence is arbitrary, so this holds after every call of it.
\<close>

theorem cash_balance_never_negative:
  "\<not> float_lt (cash_balance (run get_share_price (Account_init aid uname) ops)) (Finite 0)
   \<and> (cash_balance (run get_share_price (Account_init aid uname) ops) \<noteq> NaN \<longrightarrow>
        float_le (Finite 0) (cash_balance (run get_share_price (Account_init aid uname) ops)))"
proof -
  let ?c = "cash_balance (run get_share_price (Account_init aid uname) ops)"
  have "\<not> float_lt ?c (Finite 0)"
    by (rule run_cash_not_negative) (simp add: Account_init_def)
  then show ?thesis by (cases ?c) simp_all
qed

theorem cash_balance_never_negative_witness:
  "cash_balance (run get_share_price (Account_init ''12345'' ''Test User'')
      [(0, Deposit (Finite 500)), (1, Withdraw (Finite 200))]) = Finite 300
   \<and> Finite 300 \<noteq> NaN
   \<and> \<not> float_lt (Finite 300) (Finite 0)
   \<and> float_le (Finite 0) (Finite 300)"
proof -
  have r: "cash_balance (run get_share_price (Account_init ''12345'' ''Test User'')
      [(0, Deposit (Finite 500)), (1, Withdraw (Finite 200))]) = Finite 300"
    by (simp add: eval_simps)
  from cash_balance_never_negative
    [of "''12345''" "''Test User''" "[(0, Deposit (Finite 500)), (1, Withdraw (Finite 200))]"]
  show ?thesis unfolding r by simp
qed

lemma round_double_large:
  "round_double (2 ^ 1023) = Finite (2 ^ 1023)"
  "round_double (2 ^ 1024) = PInf"
  "round_double (150 * 2 ^ 1017) = PInf"
  "round_double (150 * 2 ^ 1023) = PInf"
  "float_of_int (2 ^ 1017) = Inr (Finite (2 ^ 1017))"
  "float_of_int (2 ^ 1023) = Inr (Finite (2 ^ 1023))"
  "float_of_int (2 ^ 1024) = Inl OverflowError"
proof -
  show a: "round_double (2 ^ 1023) = Finite (2 ^ 1023)"
    using round_double_exact [OF is_double_scaled [of "2 ^ 52" 971]] by simp
  show "round_double (2 ^ 1024) = PInf"
    by (rule round_double_overflow) (simp add: overflow_threshold_def)
  show "round_double (150 * 2 ^ 1017) = PInf"
    by (rule round_double_overflow) (simp add: overflow_threshold_def)
  show "round_double (150 * 2 ^ 1023) = PInf"
    by (rule round_double_overflow) (simp add: overflow_threshold_def)
  have b: "round_double (2 ^ 1017) = Finite (2 ^ 1017)"
    using round_double_exact [OF is_double_scaled [of "2 ^ 46" 971]] by simp
  show "float_of_int (2 ^ 1017) = Inr (Finite (2 ^ 1017))"
    using b by (simp add: float_of_int_def overflow_threshold_def)
  show "float_of_int (2 ^ 1023) = Inr (Finite (2 ^ 1023))"
    using a by (simp add: float_of_int_def overflow_threshold_def)
  show "float_of_int (2 ^ 1024) = Inl OverflowError"
    by (simp add: float_of_int_def overflow_threshold_def)
qed

text \<open>
  Claim C2, as stated, fails. Two deposits of \<open>2 ^ 1023\<close> (a double, about 9.0e307)
  overflow the cash balance to infinity. The cost of \<open>2 ^ 1017\<close> AAPL shares overflows to
  infinity too, the test \<open>total_cost > self.cash_balance\<close> is false, the purchase goes
  through, and the cash balance is infinity minus infinity, NaN, for which
  \<open>cash_balance >= 0\<close> is false.
\<close>

theorem cash_balance_nan_counterexample:
  "cash_balance (run get_share_price (Account_init ''12345'' ''Test User'')
      [(0, Deposit (Finite (2 ^ 1023))), (1, Deposit (Finite (2 ^ 1023)))]) = PInf
   \<and> float_mul_int (Finite 150) (2 ^ 1017) = Inr PInf
   \<and> \<not> float_gt PInf PInf
   \<and> float_sub PInf PInf = NaN
   \<and> cash_balance (run get_share_price (Account_init ''12345'' ''Test User'')
      [(0, Deposit (Finite (2 ^ 1023))), (1, Deposit (Finite (2 ^ 1023))),
       (2, Buy ''AAPL'' (2 ^ 1017))]) = NaN
   \<and> holdings (run get_share_price (Account_init ''12345'' ''Test User'')
      [(0, Deposit (Finite (2 ^ 1023))), (1, Deposit (Finite (2 ^ 1023))),
       (2, Buy ''AAPL'' (2 ^ 1017))]) = [(''AAPL'', 2 ^ 1017)]
   \<and> \<not> float_le (Finite 0) NaN"
  by (simp add: eval_simps round_double_large [simplified])

subsection \<open>Held quantities are positive\<close>











subsection \<open>Buying and selling back\<close>

text \<open>
  Claim C10, as amended. Take an account whose held quantities are all positive (every
  account that the calls build is one), a symbol of the price table with price \<open>p\<close>, and
  \<open>q > 0\<close> such that \<open>buy\<close> of \<open>q\<close> shares succeeds, at the cost \<open>t\<close>, the double that
  \<open>price * quantity\<close> evaluates to. Then \<open>sell\<close> of \<open>q\<close> shares right after it succeeds,
  and the account it leaves is the account before the purchase with the two transactions
  appended and with the cash balance \<open>(c - t) + t\<close> in double arithmetic, \<open>c\<close> being the
  cash balance before the purchase: the holdings are exactly what they were, and the
  cash balance is what it was when \<open>c\<close> is a finite double and \<open>c - t\<close> is a double.
\<close>

theorem buy_then_sell_restores:
  assumes inv: "\<forall>(s, n) \<in> set (holdings a). 0 < n"
    and q: "0 < q"
    and p: "map_of prices symb = Some p"
    and ok: "fst (buy get_share_price now symb q a) = Inr ()"
  shows "\<exists>t. float_mul_int p q = Inr t
       \<and> sell get_share_price now' symb q (snd (buy get_share_price now symb q a)) =
           (Inr (), a\<lparr>cash_balance := float_add (float_sub (cash_balance a) t) t,
              transactions := transactions a @
              [\<lparr>timestamp = now, type = BUY, amount = float_neg t,
                symbol = Some symb, quantity = Some q, share_price = Some p\<rparr>,
               \<lparr>timestamp = now', type = SELL, amount = t,
                symbol = Some symb, quantity = Some q, share_price = Some p\<rparr>]\<rparr>)
       \<and> holdings (snd (sell get_share_price now' symb q
           (snd (buy get_share_price now symb q a)))) = holdings a
       \<and> (\<forall>c t0. cash_balance a = Finite c \<and> t = Finite t0 \<and> is_double c
              \<and> is_double (c - t0) \<longrightarrow>
            cash_balance (snd (sell get_share_price now' symb q
              (snd (buy get_share_price now symb q a)))) = cash_balance a)"
proof -
  let ?g = "holdings_get (holdings a) symb"
  let ?a1 = "snd (buy get_share_price now symb q a)"
  from p have price: "get_share_price symb = Inr p" by (simp add: get_share_price_def)
  from ok q price obtain t where t: "float_mul_int p q = Inr t"
      and cost: "\<not> float_gt t (cash_balance a)"
    by (auto simp: buy_def split: if_splits sum.splits)
  note b = buy_success [where gsp = get_share_price, OF q price t cost, of now]
  have g1: "holdings_get (holdings ?a1) symb = ?g + q"
    by (simp add: b holdings_get_update)
  have g0: "0 \<le> ?g"
    using inv by (auto simp: holdings_get_def split: option.splits dest!: map_of_SomeD)
  with g1 have enough: "q \<le> holdings_get (holdings ?a1) symb" by simp
  note s = sell_success [where gsp = get_share_price, OF q enough price t, of now']
  have h0: "AList.delete symb (holdings a) = holdings a" if "?g = 0"
  proof (cases "map_of (holdings a) symb")
    case None
    then have "symb \<notin> fst ` set (holdings a)" by (simp add: map_of_eq_None_iff)
    then show ?thesis by simp
  next
    case (Some n)
    then have "(symb, n) \<in> set (holdings a)" by (rule map_of_SomeD)
    with inv have "0 < n" by auto
    with Some that show ?thesis by (simp add: holdings_get_def)
  qed
  have h1: "AList.update symb ?g (holdings a) = holdings a" if "?g \<noteq> 0"
    using that by (auto simp: holdings_get_def update_triv split: option.splits)
  have r: "sell get_share_price now' symb q ?a1 =
           (Inr (), a\<lparr>cash_balance := float_add (float_sub (cash_balance a) t) t,
              transactions := transactions a @
              [\<lparr>timestamp = now, type = BUY, amount = float_neg t,
                symbol = Some symb, quantity = Some q, share_price = Some p\<rparr>,
               \<lparr>timestamp = now', type = SELL, amount = t,
                symbol = Some symb, quantity = Some q, share_price = Some p\<rparr>]\<rparr>)"
    unfolding s g1 by (cases "?g = 0") (simp_all add: b h0 h1 delete_update_same)
  have x: "float_add (float_sub (Finite c) (Finite t0)) (Finite t0) = Finite c"
    if "is_double c" "is_double (c - t0)" for c t0
    using that by (simp add: float_sub_def round_double_exact)
  have "cash_balance (snd (sell get_share_price now' symb q ?a1)) = cash_balance a"
    if "cash_balance a = Finite c \<and> t = Finite t0 \<and> is_double c \<and> is_double (c - t0)"
    for c t0
    using that x [of c t0] by (simp add: r)
  with t r show ?thesis by (intro exI [of _ t]) simp
qed

theorem buy_then_sell_restores_witness:
  "(0::int) < 5 \<and> (0::int) < 2
   \<and> (0::int) < 10
   \<and> map_of prices ''AAPL'' = Some (Finite 150)
   \<and> float_mul_int (Finite 150) 10 = Inr (Finite 1500)
   \<and> is_double 3750 \<and> is_double (3750 - 1500)
   \<and> buy get_share_price 3 ''AAPL'' 10
        \<lparr>account_id = ''12345'', user_name = ''Test User'', cash_balance = Finite 3750,
         total_deposits = Finite 5000, holdings = [(''AAPL'', 5), (''TSLA'', 2)],
         transactions = []\<rparr>
       = (Inr (),
          \<lparr>account_id = ''12345'', user_name = ''Test User'', cash_balance = Finite 2250,
           total_deposits = Finite 5000, holdings = [(''AAPL'', 15), (''TSLA'', 2)],
           transactions =
             [\<lparr>timestamp = 3, type = BUY, amount = Finite (- 1500), symbol = Some ''AAPL'',
               quantity = Some 10, share_price = Some (Finite 150)\<rparr>]\<rparr>)
   \<and> sell get_share_price 4 ''AAPL'' 10
        (snd (buy get_share_price 3 ''AAPL'' 10
          \<lparr>account_id = ''12345'', user_name = ''Test User'', cash_balance = Finite 3750,
           total_deposits = Finite 5000, holdings = [(''AAPL'', 5), (''TSLA'', 2)],
           transactions = []\<rparr>))
       = (Inr (),
          \<lparr>account_id = ''12345'', user_name = ''Test User'', cash_balance = Finite 3750,
           total_deposits = Finite 5000, holdings = [(''AAPL'', 5), (''TSLA'', 2)],
           transactions =
             [\<lparr>timestamp = 3, type = BUY, amount = Finite (- 1500), symbol = Some ''AAPL'',
               quantity = Some 10, share_price = Some (Finite 150)\<rparr>,
              \<lparr>timestamp = 4, type = SELL, amount = Finite 1500, symbol = Some ''AAPL'',
               quantity = Some 10, share_price = Some (Finite 150)\<rparr>]\<rparr>)"
proof -
  let ?a = "\<lparr>account_id = ''12345'', user_name = ''Test User'', cash_balance = Finite 3750,
         total_deposits = Finite 5000, holdings = [(''AAPL'', 5), (''TSLA'', 2)],
         transactions = []\<rparr>"
  have inv: "\<forall>(s, n) \<in> set (holdings ?a). 0 < n" by simp
  have q: "(0::int) < 10" and q5: "(0::int) < 5" and q2: "(0::int) < 2" by simp_all
  have p: "map_of prices ''AAPL'' = Some (Finite 150)" by (simp add: prices_def)
  have m: "float_mul_int (Finite 150) 10 = Inr (Finite 1500)" by (simp add: eval_simps)
  have i: "is_double 3750" and i': "is_double (3750 - 1500)"
    using is_double_of_int [of 3750] is_double_of_int [of 2250] by simp_all
  have b: "buy get_share_price 3 ''AAPL'' 10 ?a
       = (Inr (),
          \<lparr>account_id = ''12345'', user_name = ''Test User'', cash_balance = Finite 2250,
           total_deposits = Finite 5000, holdings = [(''AAPL'', 15), (''TSLA'', 2)],
           transactions =
             [\<lparr>timestamp = 3, type = BUY, amount = Finite (- 1500), symbol = Some ''AAPL'',
               quantity = Some 10, share_price = Some (Finite 150)\<rparr>]\<rparr>)"
    by (simp add: eval_simps)
  then have ok: "fst (buy get_share_price 3 ''AAPL'' 10 ?a) = Inr ()" by simp
  from buy_then_sell_restores [OF inv q p ok, of 4] m
  have s: "sell get_share_price 4 ''AAPL'' 10 (snd (buy get_share_price 3 ''AAPL'' 10 ?a)) =
           (Inr (), ?a\<lparr>cash_balance := float_add (float_sub (cash_balance ?a) (Finite 1500))
                 (Finite 1500),
              transactions := transactions ?a @
              [\<lparr>timestamp = 3, type = BUY, amount = float_neg (Finite 1500),
                symbol = Some ''AAPL'', quantity = Some 10, share_price = Some (Finite 150)\<rparr>,
               \<lparr>timestamp = 4, type = SELL, amount = Finite 1500,
                symbol = Some ''AAPL'', quantity = Some 10,
                share_price = Some (Finite 150)\<rparr>]\<rparr>)"
    by auto
  have s': "sell get_share_price 4 ''AAPL'' 10 (snd (buy get_share_price 3 ''AAPL'' 10 ?a))
       = (Inr (),
          \<lparr>account_id = ''12345'', user_name = ''Test User'', cash_balance = Finite 3750,
           total_deposits = Finite 5000, holdings = [(''AAPL'', 5), (''TSLA'', 2)],
           transactions =
             [\<lparr>timestamp = 3, type = BUY, amount = Finite (- 1500), symbol = Some ''AAPL'',
               quantity = Some 10, share_price = Some (Finite 150)\<rparr>,
              \<lparr>timestamp = 4, type = SELL, amount = Finite 1500, symbol = Some ''AAPL'',
               quantity = Some 10, share_price = Some (Finite 150)\<rparr>]\<rparr>)"
    unfolding s by (simp add: eval_simps)
  show ?thesis by (intro conjI) (fact q5 q2 q p m i i' b s')+
qed

text \<open>
  Claim C10, as stated, fails. After a deposit of 18014398509482132, buying one GOOGL
  share and selling it again both succeed, and the holdings are empty as before, but the
  cash balance is 18014398509482128: the purchase took 132 and the sale gave back 128.
\<close>

theorem buy_then_sell_cash_counterexample:
  "cash_balance (run get_share_price (Account_init ''12345'' ''Test User'')
       [(0, Deposit (Finite 18014398509482132))]) = Finite 18014398509482132
   \<and> holdings (run get_share_price (Account_init ''12345'' ''Test User'')
       [(0, Deposit (Finite 18014398509482132))]) = []
   \<and> map_of prices ''GOOGL'' = Some (Finite 130)
   \<and> fst (buy get_share_price 1 ''GOOGL'' 1
        (run get_share_price (Account_init ''12345'' ''Test User'')
          [(0, Deposit (Finite 18014398509482132))])) = Inr ()
   \<and> fst (sell get_share_price 2 ''GOOGL'' 1
        (snd (buy get_share_price 1 ''GOOGL'' 1
          (run get_share_price (Account_init ''12345'' ''Test User'')
            [(0, Deposit (Finite 18014398509482132))])))) = Inr ()
   \<and> holdings (snd (sell get_share_price 2 ''GOOGL'' 1
        (snd (buy get_share_price 1 ''GOOGL'' 1
          (run get_share_price (Account_init ''12345'' ''Test User'')
            [(0, Deposit (Finite 18014398509482132))]))))) = []
   \<and> cash_balance (snd (sell get_share_price 2 ''GOOGL'' 1
        (snd (buy get_share_price 1 ''GOOGL'' 1
          (run get_share_price (Account_init ''12345'' ''Test User'')
            [(0, Deposit (Finite 18014398509482132))]))))) = Finite 18014398509482128
   \<and> Finite 18014398509482128 \<noteq> Finite 18014398509482132"
proof -
  have r: "run get_share_price (Account_init ''12345'' ''Test User'')
       [(0, Deposit (Finite 18014398509482132))]
     = \<lparr>account_id = ''12345'', user_name = ''Test User'',
        cash_balance = Finite 18014398509482132, total_deposits = Finite 18014398509482132,
        holdings = [],
        transactions =
          [\<lparr>timestamp = 0, type = DEPOSIT, amount = Finite 18014398509482132, symbol = None,
            quantity = None, share_price = None\<rparr>]\<rparr>"
    by (simp add: eval_simps round_double_example2)
  show ?thesis unfolding r
    by (simp add: eval_simps round_double_examples)
qed

subsection \<open>Portfolio value and profit or loss\<close>

lemma round_double_minus: "round_double (- x) = float_neg (round_double x)"
proof -
  have u: "ulp_exp (- x) = ulp_exp x" by (simp add: ulp_exp_def)
  show ?thesis
  proof (cases "x = 0")
    case True
    then show ?thesis by simp
  next
    case False
    consider "overflow_threshold \<le> x" | "x \<le> - overflow_threshold"
      | "\<not> overflow_threshold \<le> x" "\<not> x \<le> - overflow_threshold" by blast
    then show ?thesis
    proof cases
      case 1
      with threshold_pos have "\<not> overflow_threshold \<le> - x" by linarith
      with 1 False show ?thesis by (simp add: round_double_def)
    next
      case 2
      with threshold_pos have "\<not> overflow_threshold \<le> x" by linarith
      with 2 False show ?thesis by (simp add: round_double_def)
    next
      case 3
      then have "\<not> overflow_threshold \<le> - x" "\<not> - x \<le> - overflow_threshold" by linarith+
      with 3 False show ?thesis by (simp add: round_double_def u)
    qed
  qed
qed

lemma round_double_examples4:
  "round_double (1 / 2) = Finite (1 / 2)"
  "round_double (18014398509481985 / 2) = Finite 9007199254740992"
  "round_double (- (18014398509481983 / 2)) = Finite (- 9007199254740992)"
proof -
  show "round_double (1 / 2) = Finite (1 / 2)"
    using round_double_exact [OF is_double_scaled [of 1 "- 1"]] by simp
  show "round_double (18014398509481985 / 2) = Finite 9007199254740992"
    using round_double_eval [of 53 "18014398509481985 / 2" 4503599627370496]
    by (simp add: round_half_even_def Let_def floor_rat_numeral)
  have "round_double (18014398509481983 / 2) = Finite 9007199254740992"
    using round_double_eval [of 52 "18014398509481983 / 2" 9007199254740992]
    by (simp add: round_half_even_def Let_def floor_rat_numeral)
  then show "round_double (- (18014398509481983 / 2)) = Finite (- 9007199254740992)"
    by (simp add: round_double_minus)
qed

text \<open>
  The loop of \<open>get_portfolio_value\<close> with \<open>get_share_price\<close>: it raises, and then
  \<open>OverflowError\<close>, exactly when the quantity of some priced holding has no double;
  otherwise it adds the products in the order of the holdings and skips the holdings
  without a price.
\<close>

lemma float_mul_int_convertible:
  "float_of_int q \<noteq> Inl OverflowError \<Longrightarrow>
   float_mul_int p q = Inr (float_mul p (round_double (of_int q)))"
  by (simp add: float_mul_int_def float_of_int_def split: if_splits)

lemma float_mul_int_overflow:
  "float_of_int q = Inl OverflowError \<Longrightarrow> float_mul_int p q = Inl OverflowError"
  by (simp add: float_mul_int_def)

lemma get_share_price_error: "get_share_price s = Inl e \<Longrightarrow> e = InvalidSymbolError s"
  by (simp add: get_share_price_def split: option.splits)

lemma holdings_loop_get_share_price:
  "holdings_loop get_share_price items v =
     (if \<forall>(s, q) \<in> set items.
           (\<exists>p. get_share_price s = Inr p) \<longrightarrow> float_of_int q \<noteq> Inl OverflowError
      then Inr (foldl (\<lambda>v (s, q). case get_share_price s of
                          Inl e \<Rightarrow> v
                        | Inr p \<Rightarrow> float_add v (float_mul p (round_double (of_int q))))
                  v items)
      else Inl OverflowError)"
proof (induction items arbitrary: v)
  case Nil
  show ?case by simp
next
  case (Cons x items)
  obtain s q where x: "x = (s, q)" by (cases x)
  show ?case
  proof (cases "get_share_price s")
    case (Inl e)
    then have "e = InvalidSymbolError s" by (rule get_share_price_error)
    with Inl show ?thesis by (simp add: x Cons.IH)
  next
    case (Inr p)
    show ?thesis
    proof (cases "float_of_int q = Inl OverflowError")
      case True
      with Inr show ?thesis by (auto simp: x float_mul_int_overflow)
    next
      case False
      with Inr show ?thesis by (simp add: x float_mul_int_convertible Cons.IH)
    qed
  qed
qed

text \<open>
  Claim C6, as amended. \<open>get_portfolio_value\<close>, run with \<open>get_share_price\<close>, returns the
  account as it was. If the quantity of every held symbol that \<open>get_share_price\<close> prices
  has a double, it returns the cash balance plus the sum of the products price times
  quantity, each product and each sum rounded to a double, added from \<open>0.0\<close> in the
  order of the holdings, where an entry whose symbol \<open>get_share_price\<close> does not price is
  skipped. Otherwise it raises \<open>OverflowError\<close>.
\<close>

theorem portfolio_value_is_cash_plus_priced_holdings:
  "get_portfolio_value get_share_price a =
     (if \<forall>(s, q) \<in> set (holdings a).
           (\<exists>p. get_share_price s = Inr p) \<longrightarrow> float_of_int q \<noteq> Inl OverflowError
      then (Inr (float_add (cash_balance a)
                  (foldl (\<lambda>v (s, q). case get_share_price s of
                            Inl e \<Rightarrow> v
                          | Inr p \<Rightarrow> float_add v (float_mul p (round_double (of_int q))))
                     (Finite 0) (holdings a))), a)
      else (Inl OverflowError, a))"
  by (simp add: get_portfolio_value_def holdings_loop_get_share_price)

theorem portfolio_value_is_cash_plus_priced_holdings_witness:
  "float_of_int 5 \<noteq> Inl OverflowError \<and> float_of_int 2 \<noteq> Inl OverflowError
   \<and> get_share_price ''AAPL'' = Inr (Finite 150)
   \<and> get_share_price ''TSLA'' = Inr (Finite 250)
   \<and> get_share_price ''XYZ'' = Inl (InvalidSymbolError ''XYZ'')
   \<and> get_portfolio_value get_share_price
        \<lparr>account_id = ''12345'', user_name = ''Test User'', cash_balance = Finite 750,
         total_deposits = Finite 2000,
         holdings = [(''AAPL'', 5), (''XYZ'', 7), (''TSLA'', 2)], transactions = []\<rparr>
     = (Inr (Finite 2000),
        \<lparr>account_id = ''12345'', user_name = ''Test User'', cash_balance = Finite 750,
         total_deposits = Finite 2000,
         holdings = [(''AAPL'', 5), (''XYZ'', 7), (''TSLA'', 2)], transactions = []\<rparr>)"
proof -
  let ?a = "\<lparr>account_id = ''12345'', user_name = ''Test User'', cash_balance = Finite 750,
         total_deposits = Finite 2000,
         holdings = [(''AAPL'', 5), (''XYZ'', 7), (''TSLA'', 2)], transactions = []\<rparr>"
  have f: "float_of_int 5 \<noteq> Inl OverflowError" "float_of_int 2 \<noteq> Inl OverflowError"
    by (simp_all add: eval_simps)
  have p: "get_share_price ''AAPL'' = Inr (Finite 150)"
    "get_share_price ''TSLA'' = Inr (Finite 250)"
    "get_share_price ''XYZ'' = Inl (InvalidSymbolError ''XYZ'')"
    by (simp_all add: get_share_price_def prices_def)
  from portfolio_value_is_cash_plus_priced_holdings [of ?a] f p
  have "get_portfolio_value get_share_price ?a = (Inr (Finite 2000), ?a)"
    by (simp add: round_double_numeral)
  with f p show ?thesis by simp
qed

text \<open>
  Claim C6, as stated, fails: \<open>get_portfolio_value\<close> can raise. Two deposits of
  \<open>2 ^ 1023\<close> make the cash balance infinite, so that two purchases of \<open>2 ^ 1023\<close> AAPL
  shares go through (their cost is infinite as well). All four calls complete. The
  holding is then \<open>2 ^ 1024\<close> shares, which has no double, and \<open>price * quantity\<close> in
  \<open>get_portfolio_value\<close> raises \<open>OverflowError\<close>, which the \<open>except\<close> clause does not
  catch.
\<close>

theorem portfolio_value_overflow_counterexample:
  "completed get_share_price (Account_init ''12345'' ''Test User'')
      [(0, Deposit (Finite (2 ^ 1023))), (1, Deposit (Finite (2 ^ 1023))),
       (2, Buy ''AAPL'' (2 ^ 1023)), (3, Buy ''AAPL'' (2 ^ 1023))] = 4
   \<and> holdings (run get_share_price (Account_init ''12345'' ''Test User'')
      [(0, Deposit (Finite (2 ^ 1023))), (1, Deposit (Finite (2 ^ 1023))),
       (2, Buy ''AAPL'' (2 ^ 1023)), (3, Buy ''AAPL'' (2 ^ 1023))]) = [(''AAPL'', 2 ^ 1024)]
   \<and> float_of_int (2 ^ 1024) = Inl OverflowError
   \<and> fst (get_portfolio_value get_share_price
        (run get_share_price (Account_init ''12345'' ''Test User'')
          [(0, Deposit (Finite (2 ^ 1023))), (1, Deposit (Finite (2 ^ 1023))),
           (2, Buy ''AAPL'' (2 ^ 1023)), (3, Buy ''AAPL'' (2 ^ 1023))])) = Inl OverflowError"
  by (simp add: eval_simps round_double_large [simplified] get_portfolio_value_def)

text \<open>
  Claim C7, as amended. For any price function: when \<open>get_portfolio_value\<close> returns
  \<open>v\<close>, \<open>get_profit_loss\<close> returns the double difference of \<open>v\<close> and the total deposits,
  which is their exact difference when that is a double; when \<open>get_portfolio_value\<close>
  raises, \<open>get_profit_loss\<close> raises the same exception; the account is unchanged. The
  scenario of the tests: after a deposit of 2000 and the purchase of 10 AAPL at 150 the
  cash balance is 500; with AAPL priced at 160 the portfolio value is 2100 and the
  profit 100, and with AAPL priced at 140 they are 1900 and -100.
\<close>

theorem profit_loss_is_value_minus_deposits:
  "(fst (get_portfolio_value gsp a) = Inr v \<longrightarrow>
      get_profit_loss gsp a = (Inr (float_sub v (total_deposits a)), a))
   \<and> (fst (get_portfolio_value gsp a) = Inl e \<longrightarrow> get_profit_loss gsp a = (Inl e, a))
   \<and> (v = Finite v0 \<and> total_deposits a = Finite s \<and> is_double (v0 - s) \<longrightarrow>
        float_sub v (total_deposits a) = Finite (v0 - s))
   \<and> cash_balance (run (mock_get_price [(''AAPL'', Finite 150), (''TSLA'', Finite 250)])
         (Account_init aid uname) [(t0, Deposit (Finite 2000)), (t1, Buy ''AAPL'' 10)])
       = Finite 500
   \<and> fst (get_portfolio_value (mock_get_price [(''AAPL'', Finite 160), (''TSLA'', Finite 250)])
        (run (mock_get_price [(''AAPL'', Finite 150), (''TSLA'', Finite 250)])
           (Account_init aid uname) [(t0, Deposit (Finite 2000)), (t1, Buy ''AAPL'' 10)]))
       = Inr (Finite 2100)
   \<and> fst (get_profit_loss (mock_get_price [(''AAPL'', Finite 160), (''TSLA'', Finite 250)])
        (run (mock_get_price [(''AAPL'', Finite 150), (''TSLA'', Finite 250)])
           (Account_init aid uname) [(t0, Deposit (Finite 2000)), (t1, Buy ''AAPL'' 10)]))
       = Inr (Finite 100)
   \<and> fst (get_portfolio_value (mock_get_price [(''AAPL'', Finite 140), (''TSLA'', Finite 250)])
        (run (mock_get_price [(''AAPL'', Finite 150), (''TSLA'', Finite 250)])
           (Account_init aid uname) [(t0, Deposit (Finite 2000)), (t1, Buy ''AAPL'' 10)]))
       = Inr (Finite 1900)
   \<and> fst (get_profit_loss (mock_get_price [(''AAPL'', Finite 140), (''TSLA'', Finite 250)])
        (run (mock_get_price [(''AAPL'', Finite 150), (''TSLA'', Finite 250)])
           (Account_init aid uname) [(t0, Deposit (Finite 2000)), (t1, Buy ''AAPL'' 10)]))
       = Inr (Finite (- 100))"
proof -
  let ?a = "run (mock_get_price [(''AAPL'', Finite 150), (''TSLA'', Finite 250)])
         (Account_init aid uname) [(t0, Deposit (Finite 2000)), (t1, Buy ''AAPL'' 10)]"
  have returns: "get_profit_loss gsp a = (Inr (float_sub v (total_deposits a)), a)"
    if "fst (get_portfolio_value gsp a) = Inr v"
    using that by (simp add: get_profit_loss_def get_portfolio_value_def split: sum.splits)
  have raises: "get_profit_loss gsp a = (Inl e, a)"
    if "fst (get_portfolio_value gsp a) = Inl e"
    using that by (simp add: get_profit_loss_def get_portfolio_value_def split: sum.splits)
  have exact: "float_sub v (total_deposits a) = Finite (v0 - s)"
    if "v = Finite v0 \<and> total_deposits a = Finite s \<and> is_double (v0 - s)"
    using that by (simp add: float_sub_def round_double_exact)
  have a: "?a = \<lparr>account_id = aid, user_name = uname, cash_balance = Finite 500,
      total_deposits = Finite 2000, holdings = [(''AAPL'', 10)],
      transactions =
        [\<lparr>timestamp = t0, type = DEPOSIT, amount = Finite 2000, symbol = None,
          quantity = None, share_price = None\<rparr>,
         \<lparr>timestamp = t1, type = BUY, amount = Finite (- 1500), symbol = Some ''AAPL'',
          quantity = Some 10, share_price = Some (Finite 150)\<rparr>]\<rparr>"
    by (simp add: eval_simps mock_get_price_def)
  have scenario:
    "cash_balance ?a = Finite 500"
    "fst (get_portfolio_value (mock_get_price [(''AAPL'', Finite 160), (''TSLA'', Finite 250)]) ?a)
       = Inr (Finite 2100)"
    "fst (get_profit_loss (mock_get_price [(''AAPL'', Finite 160), (''TSLA'', Finite 250)]) ?a)
       = Inr (Finite 100)"
    "fst (get_portfolio_value (mock_get_price [(''AAPL'', Finite 140), (''TSLA'', Finite 250)]) ?a)
       = Inr (Finite 1900)"
    "fst (get_profit_loss (mock_get_price [(''AAPL'', Finite 140), (''TSLA'', Finite 250)]) ?a)
       = Inr (Finite (- 100))"
    unfolding a
    by (simp_all add: get_profit_loss_def get_portfolio_value_def mock_get_price_def eval_simps)
  from returns raises exact scenario show ?thesis by blast
qed

theorem profit_loss_is_value_minus_deposits_witness:
  "fst (get_portfolio_value get_share_price
          \<lparr>account_id = ''12345'', user_name = ''Test User'', cash_balance = Finite 500,
           total_deposits = Finite 2000, holdings = [(''AAPL'', 10)], transactions = []\<rparr>)
     = Inr (Finite 2000)
   \<and> is_double (2000 - 2000)
   \<and> get_profit_loss get_share_price
          \<lparr>account_id = ''12345'', user_name = ''Test User'', cash_balance = Finite 500,
           total_deposits = Finite 2000, holdings = [(''AAPL'', 10)], transactions = []\<rparr>
       = (Inr (Finite 0),
          \<lparr>account_id = ''12345'', user_name = ''Test User'', cash_balance = Finite 500,
           total_deposits = Finite 2000, holdings = [(''AAPL'', 10)], transactions = []\<rparr>)
   \<and> fst (get_portfolio_value get_share_price
          \<lparr>account_id = ''12345'', user_name = ''Test User'', cash_balance = Finite 0,
           total_deposits = Finite 0, holdings = [(''AAPL'', 2 ^ 1024)], transactions = []\<rparr>)
     = Inl OverflowError
   \<and> fst (get_profit_loss get_share_price
          \<lparr>account_id = ''12345'', user_name = ''Test User'', cash_balance = Finite 0,
           total_deposits = Finite 0, holdings = [(''AAPL'', 2 ^ 1024)], transactions = []\<rparr>)
     = Inl OverflowError"
proof -
  let ?a = "\<lparr>account_id = ''12345'', user_name = ''Test User'', cash_balance = Finite 500,
           total_deposits = Finite 2000, holdings = [(''AAPL'', 10)], transactions = []\<rparr>"
  let ?b = "\<lparr>account_id = ''12345'', user_name = ''Test User'', cash_balance = Finite 0,
           total_deposits = Finite 0, holdings = [(''AAPL'', 2 ^ 1024)], transactions = []\<rparr>"
  have v: "fst (get_portfolio_value get_share_price ?a) = Inr (Finite 2000)"
    by (simp add: get_portfolio_value_def eval_simps)
  have d: "is_double (2000 - 2000)" by (simp add: is_double_def)
  have o: "fst (get_portfolio_value get_share_price ?b) = Inl OverflowError"
    by (simp add: get_portfolio_value_def eval_simps round_double_large [simplified])
  from profit_loss_is_value_minus_deposits
    [where gsp = get_share_price and a = ?a and v = "Finite 2000" and ?v0.0 = 2000
       and s = 2000 and e = OverflowError] v d
  have p: "get_profit_loss get_share_price ?a = (Inr (Finite 0), ?a)" by simp
  from profit_loss_is_value_minus_deposits
    [where gsp = get_share_price and a = ?b and v = "Finite 0" and ?v0.0 = 0
       and s = 0 and e = OverflowError] o
  have q: "fst (get_profit_loss get_share_price ?b) = Inl OverflowError" by simp
  show ?thesis by (intro conjI) (fact v d p o q)+
qed

text \<open>
  Claim C7, as stated, fails in two ways. The difference is rounded: after a deposit of
  \<open>2 ^ 53\<close>, its withdrawal and a deposit of \<open>0.5\<close>, the total of the deposits is
  \<open>2 ^ 53\<close> (the \<open>0.5\<close> is lost), the portfolio value is \<open>0.5\<close>, and
  \<open>get_profit_loss\<close> returns \<open>- 2 ^ 53\<close>, not \<open>0.5 - 2 ^ 53\<close>. And
  \<open>get_profit_loss\<close> returns nothing when \<open>get_portfolio_value\<close> raises
  \<open>OverflowError\<close>, as it does on an account that four completed calls reach.
\<close>

theorem profit_loss_counterexample:
  "completed get_share_price (Account_init ''12345'' ''Test User'')
      [(0, Deposit (Finite (2 ^ 53))), (1, Withdraw (Finite (2 ^ 53))),
       (2, Deposit (Finite (1 / 2)))] = 3
   \<and> fst (get_portfolio_value get_share_price
        (run get_share_price (Account_init ''12345'' ''Test User'')
          [(0, Deposit (Finite (2 ^ 53))), (1, Withdraw (Finite (2 ^ 53))),
           (2, Deposit (Finite (1 / 2)))])) = Inr (Finite (1 / 2))
   \<and> total_deposits
        (run get_share_price (Account_init ''12345'' ''Test User'')
          [(0, Deposit (Finite (2 ^ 53))), (1, Withdraw (Finite (2 ^ 53))),
           (2, Deposit (Finite (1 / 2)))]) = Finite (2 ^ 53)
   \<and> fst (get_profit_loss get_share_price
        (run get_share_price (Account_init ''12345'' ''Test User'')
          [(0, Deposit (Finite (2 ^ 53))), (1, Withdraw (Finite (2 ^ 53))),
           (2, Deposit (Finite (1 / 2)))])) = Inr (Finite (- (2 ^ 53)))
   \<and> Finite (- (2 ^ 53)) \<noteq> Finite (1 / 2 - 2 ^ 53)
   \<and> completed get_share_price (Account_init ''12345'' ''Test User'')
      [(0, Deposit (Finite (2 ^ 1023))), (1, Deposit (Finite (2 ^ 1023))),
       (2, Buy ''AAPL'' (2 ^ 1023)), (3, Buy ''AAPL'' (2 ^ 1023))] = 4
   \<and> fst (get_profit_loss get_share_price
        (run get_share_price (Account_init ''12345'' ''Test User'')
          [(0, Deposit (Finite (2 ^ 1023))), (1, Deposit (Finite (2 ^ 1023))),
           (2, Buy ''AAPL'' (2 ^ 1023)), (3, Buy ''AAPL'' (2 ^ 1023))])) = Inl OverflowError"
  by (simp add: eval_simps round_double_large [simplified] round_double_examples3
      round_double_examples4 get_portfolio_value_def get_profit_loss_def)

subsection \<open>The collections handed to the caller\<close>

lemma heap_lookup_append:
  "heap_lookup (h @ [obj]) r = (if r = length h then Some obj else heap_lookup h r)"
  by (auto simp: heap_lookup_def nth_append)

lemma heap_lookup_Some_less: "heap_lookup h r = Some obj \<Longrightarrow> r < length h"
  by (simp add: heap_lookup_def split: if_splits)

lemma instance_at_Some_less: "instance_at h r \<noteq> None \<Longrightarrow> r < length h"
  by (auto simp: instance_at_def heap_lookup_def split: if_splits)

lemma instance_at_append: "r < length h \<Longrightarrow> instance_at (h @ [obj]) r = instance_at h r"
  by (simp add: instance_at_def heap_lookup_append)

lemma holdings_of_append:
  "holdings_of h self \<noteq> None \<Longrightarrow> holdings_of (h @ [obj]) self = holdings_of h self"
  by (auto simp: holdings_of_def heap_lookup_def nth_append split: if_splits)

lemma transactions_of_append:
  assumes "heap_wf h self"
  shows "transactions_of (h @ [obj]) self = transactions_of h self"
proof -
  from assms obtain rs where l: "heap_lookup h (transactions_ref self) = Some (PyList rs)"
      and e: "list_all (\<lambda>r. instance_at h r \<noteq> None) rs"
    by (auto simp: heap_wf_def split: option.splits pyobject.splits)
  from l have "transactions_ref self < length h" by (rule heap_lookup_Some_less)
  with l have l': "heap_lookup (h @ [obj]) (transactions_ref self) = Some (PyList rs)"
    by (simp add: heap_lookup_append)
  have "instance_at (h @ [obj]) r = instance_at h r" if "r \<in> set rs" for r
  proof -
    from e that have "instance_at h r \<noteq> None" by (simp add: list_all_iff)
    then have "r < length h" by (rule instance_at_Some_less)
    then show ?thesis by (rule instance_at_append)
  qed
  then have "map (instance_at (h @ [obj])) rs = map (instance_at h) rs" by simp
  with l l' show ?thesis by (simp add: transactions_of_def)
qed

lemma Account_object_init_wf: "heap_wf (snd (Account_object_init h)) (fst (Account_object_init h))"
  by (simp add: Account_object_init_def alloc_def heap_wf_def holdings_of_def heap_lookup_def
      nth_append)

lemma record_transaction_obj_appends:
  assumes "heap_wf h self"
  shows "\<exists>h'. record_transaction_obj t self h = Some h' \<and> heap_wf h' self
           \<and> holdings_of h' self = holdings_of h self
           \<and> transactions_of h' self = map_option (\<lambda>ts. ts @ [Some t]) (transactions_of h self)"
proof -
  from assms obtain rs d where l: "heap_lookup h (transactions_ref self) = Some (PyList rs)"
      and e: "list_all (\<lambda>r. instance_at h r \<noteq> None) rs"
      and d: "heap_lookup h (holdings_ref self) = Some (Dict d)"
    by (auto simp: heap_wf_def holdings_of_def split: option.splits pyobject.splits)
  let ?n = "length h"
  let ?h1 = "h @ [Instance t]"
  let ?h' = "?h1[transactions_ref self := PyList (rs @ [?n])]"
  from l have tl: "transactions_ref self < ?n" by (rule heap_lookup_Some_less)
  from d have hl: "holdings_ref self < ?n" by (rule heap_lookup_Some_less)
  from l d have ne: "holdings_ref self \<noteq> transactions_ref self" by auto
  from l tl have r: "record_transaction_obj t self h = Some ?h'"
    by (simp add: record_transaction_obj_def alloc_def heap_lookup_append)
  have inst: "instance_at ?h' r = (if r = ?n then Some t else instance_at h r)"
    if "r \<noteq> transactions_ref self" for r
    using that tl by (auto simp: instance_at_def heap_lookup_def nth_append)
  have elems: "r \<noteq> transactions_ref self \<and> r < ?n" if "r \<in> set rs" for r
  proof -
    from e that have i: "instance_at h r \<noteq> None" by (simp add: list_all_iff)
    with l show ?thesis by (auto simp: instance_at_def dest: heap_lookup_Some_less split: option.splits)
  qed
  have m: "map (instance_at ?h') rs = map (instance_at h) rs"
    using elems by (auto simp: inst)
  have lk: "heap_lookup ?h' (transactions_ref self) = Some (PyList (rs @ [?n]))"
    using tl by (simp add: heap_lookup_def)
  have hk: "heap_lookup ?h' (holdings_ref self) = Some (Dict d)"
    using d hl ne by (simp add: heap_lookup_def nth_append)
  have n: "instance_at ?h' ?n = Some t" using tl by (simp add: inst)
  have "heap_wf ?h' self"
    using lk hk n e m by (simp add: heap_wf_def holdings_of_def list_all_iff)
  moreover have "holdings_of ?h' self = holdings_of h self"
    using hk d by (simp add: holdings_of_def)
  moreover have "transactions_of ?h' self = map_option (\<lambda>ts. ts @ [Some t]) (transactions_of h self)"
    using lk l m n by (simp add: transactions_of_def)
  ultimately show ?thesis using r by simp
qed

text \<open>
  Claim C9, as amended. In a well-formed heap \<open>get_holdings\<close> and \<open>get_transactions\<close>
  return a new container with the items of the account's own one, at an address that is
  neither the account's dictionary nor its list. Whatever the caller then puts in the
  place of the returned container, the account's holdings and transactions read as
  before. For the holdings this is all a caller can reach through the copy, since keys
  and quantities are immutable. The claim as stated also covers the objects reachable
  from the returned list, and there it fails, as the concrete heap below shows.
\<close>

theorem snapshots_are_new_containers:
  assumes "heap_wf h self"
  shows "(\<exists>items. heap_lookup h (holdings_ref self) = Some (Dict items)
            \<and> get_holdings self h = Some (length h, h @ [Dict items]))
       \<and> (\<exists>rs. heap_lookup h (transactions_ref self) = Some (PyList rs)
            \<and> get_transactions self h = Some (length h, h @ [PyList rs]))
       \<and> (get_holdings self h = Some (r, h') \<or> get_transactions self h = Some (r, h') \<longrightarrow>
            r \<noteq> holdings_ref self \<and> r \<noteq> transactions_ref self
          \<and> (\<forall>obj. holdings_of (h'[r := obj]) self = holdings_of h self
                 \<and> transactions_of (h'[r := obj]) self = transactions_of h self))"
proof -
  from assms obtain rs items
    where l: "heap_lookup h (transactions_ref self) = Some (PyList rs)"
      and d: "heap_lookup h (holdings_ref self) = Some (Dict items)"
    by (auto simp: heap_wf_def holdings_of_def split: option.splits pyobject.splits)
  from l have tl: "transactions_ref self < length h" by (rule heap_lookup_Some_less)
  from d have hl: "holdings_ref self < length h" by (rule heap_lookup_Some_less)
  have gh: "get_holdings self h = Some (length h, h @ [Dict items])"
    using d by (simp add: get_holdings_def alloc_def)
  have gt: "get_transactions self h = Some (length h, h @ [PyList rs])"
    using l by (simp add: get_transactions_def alloc_def)
  from assms have hn: "holdings_of h self \<noteq> None" by (simp add: heap_wf_def)
  have frame: "r \<noteq> holdings_ref self \<and> r \<noteq> transactions_ref self
          \<and> (\<forall>obj. holdings_of (h'[r := obj]) self = holdings_of h self
                 \<and> transactions_of (h'[r := obj]) self = transactions_of h self)"
    if "get_holdings self h = Some (r, h') \<or> get_transactions self h = Some (r, h')"
  proof -
    from that gh gt obtain c where r: "r = length h" and h': "h' = h @ [c]" by auto
    have "h'[r := obj] = h @ [obj]" for obj by (simp add: r h')
    with r tl hl show ?thesis
      by (simp add: holdings_of_append [OF hn] transactions_of_append [OF assms])
  qed
  from l d gh gt frame show ?thesis by blast
qed

theorem snapshots_are_new_containers_witness:
  "heap_wf
     [Dict [(''AAPL'', 2)], PyList [2],
      Instance \<lparr>timestamp = 0, type = DEPOSIT, amount = Finite 500, symbol = None, quantity = None,
                share_price = None\<rparr>]
     \<lparr>holdings_ref = 0, transactions_ref = 1\<rparr>
   \<and> get_holdings \<lparr>holdings_ref = 0, transactions_ref = 1\<rparr>
       [Dict [(''AAPL'', 2)], PyList [2],
        Instance \<lparr>timestamp = 0, type = DEPOSIT, amount = Finite 500, symbol = None, quantity = None,
                  share_price = None\<rparr>]
     = Some (3, [Dict [(''AAPL'', 2)], PyList [2],
        Instance \<lparr>timestamp = 0, type = DEPOSIT, amount = Finite 500, symbol = None, quantity = None,
                  share_price = None\<rparr>, Dict [(''AAPL'', 2)]])
   \<and> holdings_of
       [Dict [(''AAPL'', 2)], PyList [2],
        Instance \<lparr>timestamp = 0, type = DEPOSIT, amount = Finite 500, symbol = None, quantity = None,
                  share_price = None\<rparr>, Dict [(''AAPL'', 99)]]
       \<lparr>holdings_ref = 0, transactions_ref = 1\<rparr> = Some [(''AAPL'', 2)]
   \<and> get_transactions \<lparr>holdings_ref = 0, transactions_ref = 1\<rparr>
       [Dict [(''AAPL'', 2)], PyList [2],
        Instance \<lparr>timestamp = 0, type = DEPOSIT, amount = Finite 500, symbol = None, quantity = None,
                  share_price = None\<rparr>]
     = Some (3, [Dict [(''AAPL'', 2)], PyList [2],
        Instance \<lparr>timestamp = 0, type = DEPOSIT, amount = Finite 500, symbol = None, quantity = None,
                  share_price = None\<rparr>, PyList [2]])
   \<and> transactions_of
       [Dict [(''AAPL'', 2)], PyList [2],
        Instance \<lparr>timestamp = 0, type = DEPOSIT, amount = Finite 500, symbol = None, quantity = None,
                  share_price = None\<rparr>, PyList [2, 0]]
       \<lparr>holdings_ref = 0, transactions_ref = 1\<rparr>
     = Some [Some \<lparr>timestamp = 0, type = DEPOSIT, amount = Finite 500, symbol = None, quantity = None,
                   share_price = None\<rparr>]"
proof -
  let ?h = "[Dict [(''AAPL'', 2)], PyList [2],
      Instance \<lparr>timestamp = 0, type = DEPOSIT, amount = Finite 500, symbol = None, quantity = None,
                share_price = None\<rparr>]"
  let ?self = "\<lparr>holdings_ref = 0, transactions_ref = 1\<rparr>"
  have wf: "heap_wf ?h ?self"
    by (simp add: heap_wf_def holdings_of_def heap_lookup_def instance_at_def)
  have g: "get_holdings ?self ?h = Some (3, ?h @ [Dict [(''AAPL'', 2)]])"
    and t: "get_transactions ?self ?h = Some (3, ?h @ [PyList [2]])"
    by (simp_all add: get_holdings_def get_transactions_def heap_lookup_def alloc_def)
  have v: "holdings_of ?h ?self = Some [(''AAPL'', 2)]"
    and w: "transactions_of ?h ?self
      = Some [Some \<lparr>timestamp = 0, type = DEPOSIT, amount = Finite 500, symbol = None,
                    quantity = None, share_price = None\<rparr>]"
    by (simp_all add: holdings_of_def transactions_of_def instance_at_def heap_lookup_def)
  from snapshots_are_new_containers [OF wf, of 3 "?h @ [Dict [(''AAPL'', 2)]]"] g
  have "holdings_of ((?h @ [Dict [(''AAPL'', 2)]])[3 := Dict [(''AAPL'', 99)]]) ?self
      = holdings_of ?h ?self"
    by blast
  moreover
  from snapshots_are_new_containers [OF wf, of 3 "?h @ [PyList [2]]"] t
  have "transactions_of ((?h @ [PyList [2]])[3 := PyList [2, 0]]) ?self
      = transactions_of ?h ?self"
    by blast
  ultimately show ?thesis using wf g t v w by simp
qed

text \<open>
  Claim C9, as stated, fails. After \<open>Account()\<close> and one recorded deposit of 100, the
  list that \<open>get_transactions\<close> returns (object 3) holds the address of the account's
  own \<open>Transaction\<close> (object 2). Assigning 999 to the \<open>amount\<close> of that element of the
  returned list changes the account's transaction history.
\<close>

theorem shared_transaction_counterexample:
  "Account_object_init [] = (\<lparr>holdings_ref = 0, transactions_ref = 1\<rparr>, [Dict [], PyList []])
   \<and> record_transaction_obj
        \<lparr>timestamp = 0, type = DEPOSIT, amount = Finite 100, symbol = None, quantity = None,
         share_price = None\<rparr>
        \<lparr>holdings_ref = 0, transactions_ref = 1\<rparr> [Dict [], PyList []]
       = Some [Dict [], PyList [2],
               Instance \<lparr>timestamp = 0, type = DEPOSIT, amount = Finite 100, symbol = None,
                         quantity = None, share_price = None\<rparr>]
   \<and> get_transactions \<lparr>holdings_ref = 0, transactions_ref = 1\<rparr>
        [Dict [], PyList [2],
         Instance \<lparr>timestamp = 0, type = DEPOSIT, amount = Finite 100, symbol = None,
                   quantity = None, share_price = None\<rparr>]
       = Some (3, [Dict [], PyList [2],
                   Instance \<lparr>timestamp = 0, type = DEPOSIT, amount = Finite 100, symbol = None,
                             quantity = None, share_price = None\<rparr>,
                   PyList [2]])
   \<and> setattr_amount 2 (Finite 999)
        [Dict [], PyList [2],
         Instance \<lparr>timestamp = 0, type = DEPOSIT, amount = Finite 100, symbol = None,
                   quantity = None, share_price = None\<rparr>,
         PyList [2]]
       = Some [Dict [], PyList [2],
               Instance \<lparr>timestamp = 0, type = DEPOSIT, amount = Finite 999, symbol = None,
                         quantity = None, share_price = None\<rparr>,
               PyList [2]]
   \<and> transactions_of
        [Dict [], PyList [2],
         Instance \<lparr>timestamp = 0, type = DEPOSIT, amount = Finite 100, symbol = None,
                   quantity = None, share_price = None\<rparr>,
         PyList [2]]
        \<lparr>holdings_ref = 0, transactions_ref = 1\<rparr>
       = Some [Some \<lparr>timestamp = 0, type = DEPOSIT, amount = Finite 100, symbol = None,
                     quantity = None, share_price = None\<rparr>]
   \<and> transactions_of
        [Dict [], PyList [2],
         Instance \<lparr>timestamp = 0, type = DEPOSIT, amount = Finite 999, symbol = None,
                   quantity = None, share_price = None\<rparr>,
         PyList [2]]
        \<lparr>holdings_ref = 0, transactions_ref = 1\<rparr>
       = Some [Some \<lparr>timestamp = 0, type = DEPOSIT, amount = Finite 999, symbol = None,
                     quantity = None, share_price = None\<rparr>]
   \<and> transactions_of
        [Dict [], PyList [2],
         Instance \<lparr>timestamp = 0, type = DEPOSIT, amount = Finite 999, symbol = None,
                   quantity = None, share_price = None\<rparr>,
         PyList [2]]
        \<lparr>holdings_ref = 0, transactions_ref = 1\<rparr>
     \<noteq> transactions_of
        [Dict [], PyList [2],
         Instance \<lparr>timestamp = 0, type = DEPOSIT, amount = Finite 100, symbol = None,
                   quantity = None, share_price = None\<rparr>,
         PyList [2]]
        \<lparr>holdings_ref = 0, transactions_ref = 1\<rparr>"
  by (simp add: Account_object_init_def alloc_def record_transaction_obj_def
      get_transactions_def setattr_amount_def transactions_of_def instance_at_def
      heap_lookup_def)

end
